theory Spec2Isabelle
  imports Main "HOL-Library.Word"
begin

unbundle bit_operations_syntax

section \<open>The WFDB annotation codec of \<open>wfdb/io/annotation.py\<close>\<close>

text \<open>
  A shallow embedding of the annotation reader and writer. Python integers are \<open>int\<close>,
  the bytes of a file (numpy \<open>uint8\<close>) are \<open>8 word\<close>, a file is the list of its byte
  pairs (\<open>file_bytes\<close>, an array of shape \<open>(n, 2)\<close>), and every exception the source
  can raise on the modelled paths is a value of \<open>py_error\<close>. Python strings are
  \<open>string\<close>: the model covers the code points below 256, which are the ones a byte
  of the file can hold.
\<close>

datatype py_error =
  IndexError | ValueError | TypeError | UnboundLocalError | AttributeError

type_synonym byte = "8 word"
type_synonym byte_pair = "byte \<times> byte"

subsection \<open>The decoder: \<open>extract_ann_data\<close> and its helpers\<close>

text \<open>
  The six lists that \<open>extract_ann_data\<close> fills (its local variables of the same
  names), and the \<open>update\<close> dictionary of flags, one per extra field.
\<close>

record ann_lists =
  sample :: "int list"
  label_store :: "int list"
  subtype :: "int list"
  chan :: "int list"
  num :: "int list"
  aux_note :: "string list"

record update_flags =
  upd_subtype :: bool
  upd_chan :: bool
  upd_num :: bool
  upd_aux_note :: bool

text \<open>
  \<open>proc_core_fields\<close> (lines 1603-1635). \<open>file_bytes[i, j]\<close> raises IndexError when
  \<open>i\<close> is past the last pair. The arithmetic is on 64-bit integers, which the sums of
  four bytes never leave.
\<close>

definition proc_core_fields :: "byte_pair list \<Rightarrow> nat \<Rightarrow> py_error + (int \<times> int \<times> nat)" where
  "proc_core_fields file_bytes bpi =
    (if length file_bytes \<le> bpi then Inl IndexError
     else
       let label_store = uint (drop_bit 2 (snd (file_bytes ! bpi))) in
       if label_store \<noteq> 59 then
         Inr (uint (fst (file_bytes ! bpi)) + 256 * uint (snd (file_bytes ! bpi) AND 3),
              label_store, bpi + 1)
       else if length file_bytes \<le> bpi + 3 then Inl IndexError
       else
         let sample_diff =
               65536 * uint (fst (file_bytes ! (bpi + 1)))
               + 16777216 * uint (snd (file_bytes ! (bpi + 1)))
               + uint (fst (file_bytes ! (bpi + 2)))
               + 256 * uint (snd (file_bytes ! (bpi + 2)));
             sample_diff =
               (if sample_diff > 2147483647 then sample_diff - 4294967296 else sample_diff);
             sample_diff =
               sample_diff + uint (fst (file_bytes ! (bpi + 3)))
               + 256 * uint (snd (file_bytes ! (bpi + 3)) AND 3);
             label_store = uint (drop_bit 2 (snd (file_bytes ! (bpi + 3))))
         in Inr (sample_diff, label_store, bpi + 4))"

text \<open>
  \<open>proc_extra_field\<close> (lines 1637-1680). \<open>astype('i1')\<close> reads the byte as a signed
  char (\<open>sint\<close>). The slice of the note's bytes never raises: past the end of the file
  it is shorter. A tag other than 60 to 63 changes nothing.
\<close>

definition proc_extra_field ::
  "int \<Rightarrow> byte_pair list \<Rightarrow> nat \<Rightarrow> ann_lists \<Rightarrow> update_flags
    \<Rightarrow> py_error + (ann_lists \<times> update_flags \<times> nat)" where
  "proc_extra_field tag file_bytes bpi acc update =
    (if length file_bytes \<le> bpi then Inl IndexError
     else if tag = 61 then
       Inr (acc\<lparr>subtype := subtype acc @ [sint (fst (file_bytes ! bpi))]\<rparr>,
            update\<lparr>upd_subtype := False\<rparr>, bpi + 1)
     else if tag = 62 then
       Inr (acc\<lparr>chan := chan acc @ [uint (fst (file_bytes ! bpi))]\<rparr>,
            update\<lparr>upd_chan := False\<rparr>, bpi + 1)
     else if tag = 60 then
       Inr (acc\<lparr>num := num acc @ [sint (fst (file_bytes ! bpi))]\<rparr>,
            update\<lparr>upd_num := False\<rparr>, bpi + 1)
     else if tag = 63 then
       let aux_notelen = unat (fst (file_bytes ! bpi));
           nwords = (aux_notelen + 1) div 2;
           aux_notebytes =
             concat (map (\<lambda>(a, b). [a, b]) (take nwords (drop (bpi + 1) file_bytes)));
           aux_notebytes =
             (if odd aux_notelen then butlast aux_notebytes else aux_notebytes)
       in Inr (acc\<lparr>aux_note :=
                  aux_note acc @ [map (\<lambda>c. char_of (unat c)) aux_notebytes]\<rparr>,
               update\<lparr>upd_aux_note := False\<rparr>, bpi + 1 + nwords)
     else Inr (acc, update, bpi))"

text \<open>\<open>update_extra_fields\<close> (lines 1683-1707).\<close>

definition update_extra_fields :: "ann_lists \<Rightarrow> update_flags \<Rightarrow> ann_lists" where
  "update_extra_fields acc update =
    (let acc = (if upd_subtype update
                  then acc\<lparr>subtype := subtype acc @ [0]\<rparr> else acc);
         acc = (if upd_chan update
                  then (if chan acc = [] then acc\<lparr>chan := chan acc @ [0]\<rparr>
                        else acc\<lparr>chan := chan acc @ [last (chan acc)]\<rparr>)
                  else acc);
         acc = (if upd_num update
                  then (if num acc = [] then acc\<lparr>num := num acc @ [0]\<rparr>
                        else acc\<lparr>num := num acc @ [last (num acc)]\<rparr>)
                  else acc)
     in (if upd_aux_note update
         then acc\<lparr>aux_note := aux_note acc @ ['''']\<rparr> else acc))"

text \<open>\<open>rm_last\<close> (lines 1802-1807): \<open>pop\<close> on an empty list raises IndexError.\<close>

definition rm_last :: "ann_lists \<Rightarrow> py_error + ann_lists" where
  "rm_last acc =
    (if sample acc = [] \<or> label_store acc = [] \<or> subtype acc = []
        \<or> chan acc = [] \<or> num acc = [] \<or> aux_note acc = []
     then Inl IndexError
     else Inr \<lparr>sample = butlast (sample acc), label_store = butlast (label_store acc),
               subtype = butlast (subtype acc), chan = butlast (chan acc),
               num = butlast (num acc), aux_note = butlast (aux_note acc)\<rparr>)"

lemma tag_bound: "uint (drop_bit 2 (w :: byte)) < 64"
proof -
  have "uint w < 256"
    using uint_bounded [of w] by simp
  then show ?thesis
    by (simp add: drop_bit_eq_div uint_div_distrib)
qed

lemma proc_extra_field_bpi:
  "proc_extra_field tag file_bytes bpi acc update = Inr (acc', update', bpi')
    \<Longrightarrow> 59 < tag \<Longrightarrow> tag < 64 \<Longrightarrow> bpi < bpi'"
  by (auto simp: proc_extra_field_def Let_def split: if_splits)

text \<open>
  The inner loop of \<open>extract_ann_data\<close> (lines 1587-1592): while the tag of the pair at
  \<open>bpi\<close> is above 59, the pair is an extra field of the current annotation.
\<close>

function extra_fields_loop ::
  "byte_pair list \<Rightarrow> nat \<Rightarrow> ann_lists \<Rightarrow> update_flags
    \<Rightarrow> py_error + (ann_lists \<times> update_flags \<times> nat)" where
  "extra_fields_loop file_bytes bpi acc update =
    (if length file_bytes \<le> bpi then Inl IndexError
     else if uint (drop_bit 2 (snd (file_bytes ! bpi))) > 59 then
       (case proc_extra_field (uint (drop_bit 2 (snd (file_bytes ! bpi))))
               file_bytes bpi acc update of
          Inl e \<Rightarrow> Inl e
        | Inr (acc', update', bpi') \<Rightarrow> extra_fields_loop file_bytes bpi' acc' update')
     else Inr (acc, update, bpi))"
  by pat_completeness auto
termination
proof (relation "measure (\<lambda>(file_bytes, bpi, acc, update). length file_bytes - bpi)")
  show "wf (measure (\<lambda>(file_bytes, bpi, acc, update). length file_bytes - bpi))"
    by simp
next
  fix file_bytes :: "byte_pair list" and bpi :: nat and acc :: ann_lists
    and update :: update_flags and x2 acc' y update' and bpi' :: nat
  assume inr: "\<not> length file_bytes \<le> bpi"
    and tag: "59 < uint (drop_bit 2 (snd (file_bytes ! bpi)))"
    and res: "proc_extra_field (uint (drop_bit 2 (snd (file_bytes ! bpi))))
                file_bytes bpi acc update = Inr x2"
    and x2: "(acc', y) = x2" and y: "(update', bpi') = y"
  from res x2 y have "proc_extra_field (uint (drop_bit 2 (snd (file_bytes ! bpi))))
                file_bytes bpi acc update = Inr (acc', update', bpi')"
    by simp
  from proc_extra_field_bpi [OF this tag tag_bound] have "bpi < bpi'" .
  with inr show "((file_bytes, bpi', acc', update'), (file_bytes, bpi, acc, update))
      \<in> measure (\<lambda>(file_bytes, bpi, acc, update). length file_bytes - bpi)"
    by simp
qed

declare extra_fields_loop.simps [simp del]

text \<open>
  One pass of the main loop of \<open>extract_ann_data\<close> (lines 1575-1595), before the test
  on \<open>sampto\<close>: the core fields, the extra fields, then the defaults and carried
  values. It returns the lists, the running sample total and the next pair's index.
\<close>

definition all_update :: update_flags where
  "all_update = \<lparr>upd_subtype = True, upd_chan = True, upd_num = True, upd_aux_note = True\<rparr>"

definition ann_iteration ::
  "byte_pair list \<Rightarrow> nat \<Rightarrow> int \<Rightarrow> ann_lists \<Rightarrow> py_error + (ann_lists \<times> int \<times> nat)" where
  "ann_iteration file_bytes bpi sample_total acc =
    (case proc_core_fields file_bytes bpi of
       Inl e \<Rightarrow> Inl e
     | Inr (sample_diff, current_label_store, bpi1) \<Rightarrow>
         (case extra_fields_loop file_bytes bpi1
                 (acc\<lparr>sample := sample acc @ [sample_total + sample_diff],
                      label_store := label_store acc @ [current_label_store]\<rparr>)
                 all_update of
            Inl e \<Rightarrow> Inl e
          | Inr (acc', update, bpi2) \<Rightarrow>
              Inr (update_extra_fields acc' update, sample_total + sample_diff, bpi2)))"

lemma extra_fields_loop_bpi:
  "extra_fields_loop file_bytes bpi acc update = Inr (acc', update', bpi') \<Longrightarrow> bpi \<le> bpi'"
proof (induction file_bytes bpi acc update rule: extra_fields_loop.induct)
  case (1 file_bytes bpi acc update)
  show ?case
  proof (cases "59 < uint (drop_bit 2 (snd (file_bytes ! bpi)))")
    case False
    with "1.prems" show ?thesis
      by (simp add: extra_fields_loop.simps [of file_bytes bpi] split: if_splits)
  next
    case True
    from "1.prems" have inr: "\<not> length file_bytes \<le> bpi"
      by (simp add: extra_fields_loop.simps [of file_bytes bpi] split: if_splits)
    from "1.prems" True inr obtain acc1 update1 bpi1 where
      step: "proc_extra_field (uint (drop_bit 2 (snd (file_bytes ! bpi))))
               file_bytes bpi acc update = Inr (acc1, update1, bpi1)"
      and rest: "extra_fields_loop file_bytes bpi1 acc1 update1 = Inr (acc', update', bpi')"
      by (simp add: extra_fields_loop.simps [of file_bytes bpi] split: sum.splits prod.splits)
    from step have "bpi \<le> bpi1"
      by (auto simp: proc_extra_field_def Let_def split: if_splits)
    moreover from "1.IH" [OF inr True step refl refl rest] have "bpi1 \<le> bpi'" .
    ultimately show ?thesis by simp
  qed
qed

lemma proc_core_fields_bpi:
  "proc_core_fields file_bytes bpi = Inr (sample_diff, tag, bpi') \<Longrightarrow> bpi < bpi'"
  by (simp add: proc_core_fields_def Let_def split: if_splits)

lemma ann_iteration_bpi:
  assumes "ann_iteration file_bytes bpi sample_total acc = Inr (acc', sample_total', bpi')"
  shows "bpi < bpi'"
proof -
  from assms obtain sample_diff tag bpi1 where
    core: "proc_core_fields file_bytes bpi = Inr (sample_diff, tag, bpi1)"
    by (cases "proc_core_fields file_bytes bpi") (auto simp: ann_iteration_def)
  with assms obtain acc1 update1 where
    "extra_fields_loop file_bytes bpi1
       (acc\<lparr>sample := sample acc @ [sample_total + sample_diff],
            label_store := label_store acc @ [tag]\<rparr>) all_update = Inr (acc1, update1, bpi')"
    by (simp add: ann_iteration_def split: sum.splits prod.splits)
  then have "bpi1 \<le> bpi'"
    by (rule extra_fields_loop_bpi)
  with proc_core_fields_bpi [OF core] show ?thesis
    by simp
qed

text \<open>
  \<open>extract_ann_data\<close> (lines 1552-1601). The loop runs while \<open>bpi < n - 1\<close>, the last
  pair being the end of the file. \<open>if sampto and sampto < sample_total\<close>: a bound that
  is \<open>None\<close> or 0 is falsy and never stops the loop.
\<close>

function extract_loop ::
  "byte_pair list \<Rightarrow> int option \<Rightarrow> nat \<Rightarrow> int \<Rightarrow> ann_lists \<Rightarrow> py_error + ann_lists" where
  "extract_loop file_bytes sampto bpi sample_total acc =
    (if bpi + 1 < length file_bytes then
       (case ann_iteration file_bytes bpi sample_total acc of
          Inl e \<Rightarrow> Inl e
        | Inr (acc', sample_total', bpi') \<Rightarrow>
            if (case sampto of None \<Rightarrow> False | Some b \<Rightarrow> b \<noteq> 0 \<and> b < sample_total')
            then rm_last acc'
            else extract_loop file_bytes sampto bpi' sample_total' acc')
     else Inr acc)"
  by pat_completeness auto
termination
proof (relation
    "measure (\<lambda>(file_bytes, sampto, bpi, sample_total, acc). length file_bytes - bpi)")
  show "wf (measure
      (\<lambda>(file_bytes, sampto, bpi, sample_total, acc). length file_bytes - bpi))"
    by simp
next
  fix file_bytes :: "byte_pair list" and sampto :: "int option" and bpi :: nat
    and sample_total :: int and acc :: ann_lists and x2 acc' y sample_total' and bpi' :: nat
  assume "bpi + 1 < length file_bytes"
    and "ann_iteration file_bytes bpi sample_total acc = Inr x2"
    and "(acc', y) = x2" and "(sample_total', bpi') = y"
  then have "bpi < bpi'" and "bpi < length file_bytes"
    using ann_iteration_bpi [of file_bytes bpi sample_total acc acc' sample_total' bpi']
    by simp_all
  then show "((file_bytes, sampto, bpi', sample_total', acc'),
      (file_bytes, sampto, bpi, sample_total, acc))
      \<in> measure (\<lambda>(file_bytes, sampto, bpi, sample_total, acc). length file_bytes - bpi)"
    by simp
qed

declare extract_loop.simps [simp del]

definition empty_lists :: ann_lists where
  "empty_lists = \<lparr>sample = [], label_store = [], subtype = [], chan = [], num = [],
                   aux_note = []\<rparr>"

definition extract_ann_data :: "byte_pair list \<Rightarrow> int option \<Rightarrow> py_error + ann_lists" where
  "extract_ann_data file_bytes sampto = extract_loop file_bytes sampto 0 0 empty_lists"

subsection \<open>The label table and the encoder\<close>

text \<open>
  \<open>ANN_LABELS\<close> (lines 66-108), the standard label map: rows of
  \<open>(label_store, symbol, description)\<close>, in the order of the source. The symbol of row
  22 is the double quote.
\<close>

definition ANN_LABELS :: "(int \<times> string \<times> string) list" where
  "ANN_LABELS =
    [
     (1, ''N'', ''Normal beat''),
     (2, ''L'', ''Left bundle branch block beat''),
     (3, ''R'', ''Right bundle branch block beat''),
     (4, ''a'', ''Aberrated atrial premature beat''),
     (5, ''V'', ''Premature ventricular contraction''),
     (6, ''F'', ''Fusion of ventricular and normal beat''),
     (7, ''J'', ''Nodal (junctional) premature beat''),
     (8, ''A'', ''Atrial premature contraction''),
     (9, ''S'', ''Premature or ectopic supraventricular beat''),
     (10, ''E'', ''Ventricular escape beat''),
     (11, ''j'', ''Nodal (junctional) escape beat''),
     (12, ''/'', ''Paced beat''),
     (13, ''Q'', ''Unclassifiable beat''),
     (14, ''~'', ''Signal quality change''),
     (16, ''|'', ''Isolated QRS-like artifact''),
     (18, ''s'', ''ST change''),
     (19, ''T'', ''T-wave change''),
     (20, ''*'', ''Systole''),
     (21, ''D'', ''Diastole''),
     (22, [CHR 0x22], ''Comment annotation''),
     (23, ''='', ''Measurement annotation''),
     (24, ''p'', ''P-wave peak''),
     (25, ''B'', ''Left or right bundle branch block''),
     (26, ''^'', ''Non-conducted pacer spike''),
     (27, ''t'', ''T-wave peak''),
     (28, ''+'', ''Rhythm change''),
     (29, ''u'', ''U-wave peak''),
     (30, ''?'', ''Learning''),
     (31, ''!'', ''Ventricular flutter wave''),
     (32, ''['', ''Start of ventricular flutter/fibrillation''),
     (33, '']'', ''End of ventricular flutter/fibrillation''),
     (34, ''e'', ''Atrial escape beat''),
     (35, ''n'', ''Supraventricular escape beat''),
     (36, ''@'', ''Link to external data (aux_note contains URL)''),
     (37, ''x'', ''Non-conducted P-wave (blocked APB)''),
     (38, ''f'', ''Fusion of paced and normal beat''),
     (39, ''('', ''Waveform onset''),
     (40, '')'', ''Waveform end''),
     (41, ''r'', ''R-on-T premature ventricular contraction'')
    ]"

text \<open>
  The attributes of an \<open>Annotation\<close> object that the writer reads (lines 181-192).
  \<open>None\<close> is an attribute that holds \<open>None\<close>. The numeric fields are numpy integer
  arrays, \<open>symbol\<close> and \<open>aux_note\<close> are lists of strings.
\<close>

record annotation =
  self_sample :: "int list"
  self_symbol :: "string list option"
  self_subtype :: "int list option"
  self_chan :: "int list option"
  self_num :: "int list option"
  self_aux_note :: "string list option"

text \<open>
  The first differences that \<open>check_field\<close> (lines 416-419) and \<open>calc_core_bytes\<close>
  (lines 764-767) compute: \<open>[sample[0]]\<close> followed by \<open>np.diff(sample)\<close>. The model
  is of a \<open>sample\<close> array of a signed integer type in which the differences do not
  overflow, as with the 64-bit integers numpy makes of Python integers: there
  \<open>np.diff\<close> is the difference of integers. On an array of an unsigned type \<open>np.diff\<close>
  wraps, and the checks below see the wrapped values.
\<close>

definition sampdiffs :: "int list \<Rightarrow> int list" where
  "sampdiffs s = (case s of [] \<Rightarrow> [] | x # xs \<Rightarrow> x # map (\<lambda>(a, b). b - a) (zip s xs))"

text \<open>Python's \<open>min\<close> and \<open>max\<close> of a sequence that is not empty.\<close>

definition list_min :: "int list \<Rightarrow> int" where
  "list_min xs = fold min (tl xs) (hd xs)"

definition list_max :: "int list \<Rightarrow> int" where
  "list_max xs = fold max (tl xs) (hd xs)"

text \<open>
  \<open>check_field\<close> for the numeric fields (lines 415-445). Every failure here is a
  ValueError; \<open>min\<close> of an empty array raises it too.
\<close>

definition check_field_sample :: "int list \<Rightarrow> py_error + unit" where
  "check_field_sample s =
    (if length s = 0 then Inl ValueError
     else if list_min s < 0 then Inl ValueError
     else if list_min (sampdiffs s) < 0 then Inl ValueError
     else if list_max (sampdiffs s) > 2147483648 then Inl ValueError
     else Inr ())"

definition check_field_range :: "int \<Rightarrow> int list \<Rightarrow> py_error + unit" where
  "check_field_range hi item =
    (if item = [] then Inl ValueError
     else if list_min item < 0 \<or> list_max item > hi then Inl ValueError
     else Inr ())"

definition check_field_subtype :: "int list \<Rightarrow> py_error + unit" where
  "check_field_subtype item = check_field_range 127 item"

definition check_field_chan :: "int list \<Rightarrow> py_error + unit" where
  "check_field_chan item = check_field_range 255 item"

definition check_field_num :: "int list \<Rightarrow> py_error + unit" where
  "check_field_num item = check_field_range 127 item"

text \<open>
  \<open>compact_carry_field\<close> (lines 1100-1132): an element is kept where it differs from
  the previous one, the first from 0; a list of \<open>None\<close> only becomes \<open>None\<close>.
\<close>

fun compact_carry_loop :: "int \<Rightarrow> int list \<Rightarrow> int option list" where
  "compact_carry_loop prev_field [] = []"
| "compact_carry_loop prev_field (current_field # rest) =
    (if current_field \<noteq> prev_field
     then Some current_field # compact_carry_loop current_field rest
     else None # compact_carry_loop prev_field rest)"

definition compact_carry_field :: "int list option \<Rightarrow> int option list option" where
  "compact_carry_field full_field =
    (case full_field of
       None \<Rightarrow> None
     | Some xs \<Rightarrow>
         let compact_field = compact_carry_loop 0 xs in
         if compact_field = replicate (length xs) None then None else Some compact_field)"

text \<open>
  \<open>_compact_fields\<close> (lines 802-839), which \<open>calc_core_bytes\<close> runs on a copy of the
  object. \<open>n_annots\<close> is the length of \<open>sample\<close>, whatever the lengths of the other
  fields.
  \<^item> \<open>chan\<close> and \<open>num\<close> go through \<open>compact_carry_field\<close>.
  \<^item> \<open>subtype\<close> is a numpy array (the branch of line 825; \<open>check_field\<close> admits no
    list): it becomes \<open>None\<close> when the number of its zeros is \<open>n_annots\<close>, and
    otherwise the list with \<open>None\<close> in the place of every zero.
  \<^item> \<open>aux_note\<close> is a Python list of strings: its first \<open>n_annots\<close> elements are
    read, which raises IndexError on a shorter list, and an empty string among them
    becomes \<open>None\<close>; elements past \<open>n_annots\<close> stay as they are. The field becomes
    \<open>None\<close> when it then equals \<open>[None] * n_annots\<close>.
\<close>

record compact_annotation =
  compact_subtype :: "int option list option"
  compact_chan :: "int option list option"
  compact_num :: "int option list option"
  compact_aux_note :: "string option list option"

definition compact_subtype_field :: "nat \<Rightarrow> int list option \<Rightarrow> int option list option" where
  "compact_subtype_field n_annots field =
    (case field of
       None \<Rightarrow> None
     | Some xs \<Rightarrow>
         let zero_inds = filter (\<lambda>i. xs ! i = 0) [0..<length xs] in
         if length zero_inds = n_annots then None
         else Some (map (\<lambda>i. if i \<in> set zero_inds then None else Some (xs ! i)) [0..<length xs]))"

definition compact_aux_note_field ::
  "nat \<Rightarrow> string list option \<Rightarrow> py_error + string option list option" where
  "compact_aux_note_field n_annots field =
    (case field of
       None \<Rightarrow> Inr None
     | Some ns \<Rightarrow>
         if length ns < n_annots then Inl IndexError
         else
           let ys = map (\<lambda>x. if x = [] then None else Some x) (take n_annots ns)
                      @ map Some (drop n_annots ns) in
           if ys = replicate n_annots None then Inr None else Inr (Some ys))"

definition compact_fields :: "annotation \<Rightarrow> py_error + compact_annotation" where
  "compact_fields self =
    (let n_annots = length (self_sample self) in
     case compact_aux_note_field n_annots (self_aux_note self) of
       Inl e \<Rightarrow> Inl e
     | Inr aux \<Rightarrow>
         Inr \<lparr>compact_subtype = compact_subtype_field n_annots (self_subtype self),
              compact_chan = compact_carry_field (self_chan self),
              compact_num = compact_carry_field (self_num self),
              compact_aux_note = aux\<rparr>)"

text \<open>\<open>isblank\<close> (lines 1091-1097).\<close>

definition isblank :: "'a option list option \<Rightarrow> bool" where
  "isblank x = (case x of None \<Rightarrow> True | Some xs \<Rightarrow> set xs = {None})"

text \<open>
  \<open>field2bytes\<close> (lines 1136-1183). The field name and its value are one argument
  here. The type code of a symbol is the \<open>label_store\<close> of the first row of
  \<open>ANN_LABELS\<close> with that symbol; \<open>.values[0]\<close> raises IndexError when there is none.
  The result is a list of Python integers.
\<close>

datatype field_value =
  Samptype int string | Num int | Subtype int | Chan int | Aux_note string

definition typecode_of :: "string \<Rightarrow> py_error + int" where
  "typecode_of symb =
    (case filter (\<lambda>(st, sy, d). sy = symb) ANN_LABELS of
       [] \<Rightarrow> Inl IndexError
     | (st, sy, d) # rest \<Rightarrow> Inr st)"

fun field2bytes :: "field_value \<Rightarrow> py_error + int list" where
  "field2bytes (Samptype sd symb) =
    (case typecode_of symb of
       Inl e \<Rightarrow> Inl e
     | Inr typecode \<Rightarrow>
         if sd > 1023 then
           Inr [0, 236, drop_bit 16 (sd AND 16711680), drop_bit 24 (sd AND 4278190080),
                sd AND 255, drop_bit 8 (sd AND 65280), 0, 4 * typecode]
         else Inr [sd AND 255, drop_bit 8 (sd AND 768) + 4 * typecode])"
| "field2bytes (Num v) = Inr [v, 240]"
| "field2bytes (Subtype v) = Inr [v, 244]"
| "field2bytes (Chan v) = Inr [v, 248]"
| "field2bytes (Aux_note v) =
    Inr ([int (length v), 252] @ map of_char v @ (if odd (length v) then [0] else []))"

text \<open>
  \<open>calc_core_bytes\<close> (lines 759-799). \<open>xs[i]\<close> raises IndexError past the end and
  TypeError on \<open>None\<close>; the first exception ends the computation. The extra fields are
  written in the order num, subtype, chan, aux_note, each only when it is not blank and
  its value at the index is not \<open>None\<close>. \<open>astype('u1')\<close> keeps the low 8 bits.
\<close>

definition get_item :: "'a list \<Rightarrow> nat \<Rightarrow> py_error + 'a" where
  "get_item xs i = (if i < length xs then Inr (xs ! i) else Inl IndexError)"

definition append_py :: "py_error + 'a list \<Rightarrow> py_error + 'a list \<Rightarrow> py_error + 'a list" where
  "append_py a b =
    (case a of Inl e \<Rightarrow> Inl e
     | Inr xs \<Rightarrow> (case b of Inl e \<Rightarrow> Inl e | Inr ys \<Rightarrow> Inr (xs @ ys)))"

definition extra_field_bytes ::
  "'a option list option \<Rightarrow> nat \<Rightarrow> ('a \<Rightarrow> field_value) \<Rightarrow> py_error + int list" where
  "extra_field_bytes field i mk =
    (if isblank field then Inr []
     else case field of
       None \<Rightarrow> Inr []
     | Some vs \<Rightarrow>
         (case get_item vs i of
            Inl e \<Rightarrow> Inl e
          | Inr None \<Rightarrow> Inr []
          | Inr (Some v) \<Rightarrow> field2bytes (mk v)))"

definition annotation_bytes :: "annotation \<Rightarrow> compact_annotation \<Rightarrow> nat \<Rightarrow> py_error + int list" where
  "annotation_bytes self compact i =
    append_py
      (case self_symbol self of
         None \<Rightarrow> Inl TypeError
       | Some syms \<Rightarrow>
           (case get_item syms i of
              Inl e \<Rightarrow> Inl e
            | Inr symb \<Rightarrow> field2bytes (Samptype (sampdiffs (self_sample self) ! i) symb)))
      (append_py (extra_field_bytes (compact_num compact) i Num)
        (append_py (extra_field_bytes (compact_subtype compact) i Subtype)
          (append_py (extra_field_bytes (compact_chan compact) i Chan)
            (extra_field_bytes (compact_aux_note compact) i Aux_note))))"

definition calc_core_bytes :: "annotation \<Rightarrow> py_error + byte list" where
  "calc_core_bytes self =
    (if self_sample self = [] then Inl IndexError
     else
       case compact_fields self of
         Inl e \<Rightarrow> Inl e
       | Inr compact \<Rightarrow>
           (case fold (\<lambda>i data_bytes. append_py data_bytes (annotation_bytes self compact i))
                   [0..<length (sampdiffs (self_sample self))] (Inr []) of
              Inl e \<Rightarrow> Inl e
            | Inr data_bytes \<Rightarrow> Inr (map word_of_int data_bytes)))"

text \<open>
  \<open>wr_ann_file\<close> (lines 670-700), the bytes it writes: the bytes of the sampling
  frequency and of the custom labels (empty when there are none to write), the end of
  the special annotations when either is there, the core bytes and the two zero bytes
  that end the file.
\<close>

definition wr_ann_file_bytes :: "byte list \<Rightarrow> byte list \<Rightarrow> annotation \<Rightarrow> py_error + byte list" where
  "wr_ann_file_bytes fs_bytes cl_bytes self =
    (case calc_core_bytes self of
       Inl e \<Rightarrow> Inl e
     | Inr core_bytes \<Rightarrow>
         let end_special_bytes =
               (if fs_bytes = [] \<and> cl_bytes = [] then []
                else [0, 236, 255, 255, 255, 255, 1, 0])
         in Inr (fs_bytes @ cl_bytes @ end_special_bytes @ core_bytes @ [0, 0]))"

text \<open>
  \<open>load_byte_pairs\<close> (lines 1534-1549): \<open>reshape([-1, 2])\<close> raises ValueError on an odd
  number of bytes.
\<close>

fun load_byte_pairs :: "byte list \<Rightarrow> py_error + byte_pair list" where
  "load_byte_pairs [] = Inr []"
| "load_byte_pairs [a] = Inl ValueError"
| "load_byte_pairs (a # b # rest) =
    (case load_byte_pairs rest of Inl e \<Rightarrow> Inl e | Inr ps \<Rightarrow> Inr ((a, b) # ps))"

subsection \<open>The reader after \<open>extract_ann_data\<close>\<close>

text \<open>
  \<open>get_info_inds\<close> (lines 1714-1737) on the lists that \<open>extract_ann_data\<close> returned.
  The sets of indices are lists without repetition; the source reads them only through
  their size and through membership.
\<close>

definition get_info_inds :: "ann_lists \<Rightarrow> nat list \<times> nat list" where
  "get_info_inds acc =
    (let s0_inds = filter (\<lambda>i. sample acc ! i = 0) [0..<length (sample acc)];
         note_inds = filter (\<lambda>i. label_store acc ! i = 22) [0..<length (label_store acc)];
         potential_info_inds = filter (\<lambda>i. i \<in> set note_inds) s0_inds;
         notann_inds = filter (\<lambda>i. label_store acc ! i = 0) [0..<length (label_store acc)];
         rm_inds = remdups (potential_info_inds @ notann_inds)
     in (potential_info_inds, rm_inds))"

text \<open>
  \<open>rm_empty_indices\<close> (lines 1778-1791): with nothing to remove the lists come back
  as they are; otherwise every list is read at the kept indices of the first one.
\<close>

definition select_inds :: "nat list \<Rightarrow> 'a list \<Rightarrow> py_error + 'a list" where
  "select_inds keep_inds a =
    (if list_all (\<lambda>i. i < length a) keep_inds then Inr (map (\<lambda>i. a ! i) keep_inds)
     else Inl IndexError)"

definition rm_empty_indices :: "nat list \<Rightarrow> ann_lists \<Rightarrow> py_error + ann_lists" where
  "rm_empty_indices rm_inds acc =
    (if rm_inds = [] then Inr acc
     else
       let keep_inds = filter (\<lambda>i. i \<notin> set rm_inds) [0..<length (sample acc)] in
       case (select_inds keep_inds (sample acc), select_inds keep_inds (label_store acc),
             select_inds keep_inds (subtype acc), select_inds keep_inds (chan acc),
             select_inds keep_inds (num acc), select_inds keep_inds (aux_note acc)) of
         (Inr s, Inr l, Inr st, Inr c, Inr n, Inr a) \<Rightarrow>
           Inr \<lparr>sample = s, label_store = l, subtype = st, chan = c, num = n, aux_note = a\<rparr>
       | _ \<Rightarrow> Inl IndexError)"

text \<open>
  \<open>extract_ann_info\<close> (lines 1740-1776) reads the notes through two regular
  expressions and Python's \<open>float\<close>, \<open>round\<close> and \<open>int\<close>. These belong to Python's
  library and to floating point; the model takes them as parameters:
  \<^item> \<open>rx_fs_findall\<close> is \<open>rx_fs.findall\<close>, the list of the captured numbers;
  \<^item> \<open>rx_custom_label_findall\<close> is \<open>rx_custom_label.findall\<close>;
  \<^item> \<open>fs_of_str\<close> is \<open>float\<close> of the captured text followed by lines 1759-1760, which
    turn a value that is integral up to \<open>1e-8\<close> into an \<open>int\<close> (and raise for a value
    too large for \<open>int\<close>);
  \<^item> \<open>fs_falsy\<close> is \<open>not fs\<close> on a number;
  \<^item> \<open>int_of_str\<close> is \<open>int\<close> on the captured digits.
\<close>

record 'f py_lib =
  rx_fs_findall :: "string \<Rightarrow> string list"
  rx_custom_label_findall :: "string \<Rightarrow> (string \<times> string \<times> string) list"
  fs_of_str :: "string \<Rightarrow> py_error + 'f"
  fs_falsy :: "'f \<Rightarrow> bool"
  int_of_str :: "string \<Rightarrow> int"

text \<open>
  The inner loop (lines 1765-1768): up to the note that ends the definitions, every note
  must match. It returns the index of the closing note and the labels.
\<close>

function definitions_loop ::
  "'f py_lib \<Rightarrow> string list \<Rightarrow> nat \<Rightarrow> (int \<times> string \<times> string) list
    \<Rightarrow> py_error + (nat \<times> (int \<times> string \<times> string) list)" where
  "definitions_loop lib notes i custom_labels =
    (if length notes \<le> i then Inl IndexError
     else if notes ! i = ''## end of definitions'' then Inr (i, custom_labels)
     else
       (case rx_custom_label_findall lib (notes ! i) of
          [] \<Rightarrow> Inl IndexError
        | (ls, sy, d) # rest \<Rightarrow>
            definitions_loop lib notes (i + 1) (custom_labels @ [(int_of_str lib ls, sy, d)])))"
  by pat_completeness auto
termination
  by (relation "measure (\<lambda>(lib, notes, i, custom_labels). length notes - i)") auto

declare definitions_loop.simps [simp del]

text \<open>
  The outer loop (lines 1753-1771), with \<open>n = len(potential_info_inds)\<close>. A note that
  starts with \<open>## \<close> and is neither a frequency (while none is set) nor the opening of
  the definitions leaves \<open>i\<close> as it is: the loop does not end, and the result is
  \<open>None\<close>.
\<close>

definition startswith :: "string \<Rightarrow> string \<Rightarrow> bool" where
  "startswith s p = (take (length p) s = p)"

partial_function (option) info_loop ::
  "'f py_lib \<Rightarrow> nat \<Rightarrow> string list \<Rightarrow> nat \<Rightarrow> 'f option \<Rightarrow> (int \<times> string \<times> string) list
    \<Rightarrow> (py_error + ('f option \<times> (int \<times> string \<times> string) list)) option" where
  "info_loop lib n notes i fs custom_labels =
    (if i < n then
       (if length notes \<le> i then Some (Inl IndexError)
        else if startswith (notes ! i) ''## '' then
          (case (if (case fs of None \<Rightarrow> True | Some f \<Rightarrow> fs_falsy lib f)
                 then rx_fs_findall lib (notes ! i) else []) of
             m # rest \<Rightarrow>
               (case fs_of_str lib m of
                  Inl e \<Rightarrow> Some (Inl e)
                | Inr f \<Rightarrow> info_loop lib n notes (i + 1) (Some f) custom_labels)
           | [] \<Rightarrow>
               if notes ! i = ''## annotation type definitions'' then
                 (case definitions_loop lib notes (i + 1) custom_labels of
                    Inl e \<Rightarrow> Some (Inl e)
                  | Inr (i', custom_labels') \<Rightarrow>
                      info_loop lib n notes (i' + 1) fs custom_labels')
               else info_loop lib n notes i fs custom_labels)
        else info_loop lib n notes (i + 1) fs custom_labels)
     else Some (Inr (fs, custom_labels)))"

definition extract_ann_info ::
  "'f py_lib \<Rightarrow> nat list \<Rightarrow> string list
    \<Rightarrow> (py_error + ('f option \<times> (int \<times> string \<times> string) list option)) option" where
  "extract_ann_info lib potential_info_inds notes =
    (case (if length potential_info_inds > 0
           then info_loop lib (length potential_info_inds) notes 0 None []
           else Some (Inr (None, []))) of
       None \<Rightarrow> None
     | Some (Inl e) \<Rightarrow> Some (Inl e)
     | Some (Inr (fs, custom_labels)) \<Rightarrow>
         Some (Inr (fs, if custom_labels = [] then None else Some custom_labels)))"

text \<open>
  \<open>rdann\<close> from the bytes of the file to the lists it builds the object from (lines
  1406-1419): \<open>None\<close> when it does not return.
\<close>

definition rdann_data ::
  "'f py_lib \<Rightarrow> byte_pair list \<Rightarrow> int option
    \<Rightarrow> (py_error + ('f option \<times> (int \<times> string \<times> string) list option \<times> ann_lists)) option" where
  "rdann_data lib file_bytes sampto =
    (case extract_ann_data file_bytes sampto of
       Inl e \<Rightarrow> Some (Inl e)
     | Inr acc \<Rightarrow>
         (case extract_ann_info lib (fst (get_info_inds acc)) (aux_note acc) of
            None \<Rightarrow> None
          | Some (Inl e) \<Rightarrow> Some (Inl e)
          | Some (Inr (fs, custom_labels)) \<Rightarrow>
              (case rm_empty_indices (snd (get_info_inds acc)) acc of
                 Inl e \<Rightarrow> Some (Inl e)
               | Inr acc' \<Rightarrow> Some (Inr (fs, custom_labels, acc')))))"

text \<open>
  The header fallback of \<open>rdann\<close> (lines 1428-1433). \<open>record.rdheader\<close> is outside
  this file: the model takes it as a parameter that either raises or returns the
  header's \<open>fs\<close>, and keeps the list of the record names it was called with. The bare
  \<open>except\<close> catches whatever it raises.
\<close>

definition rdann_header_fs ::
  "(string \<Rightarrow> py_error + 'f option) \<Rightarrow> string \<Rightarrow> 'f option \<Rightarrow> string list
    \<Rightarrow> py_error + ('f option \<times> string list)" where
  "rdann_header_fs rdheader record_name fs calls =
    (case fs of
       None \<Rightarrow>
         (case rdheader record_name of
            Inl e \<Rightarrow> Inr (None, calls @ [record_name])
          | Inr rec_fs \<Rightarrow> Inr (rec_fs, calls @ [record_name]))
     | Some f \<Rightarrow> Inr (Some f, calls))"

text \<open>
  \<open>check_read_inputs\<close> (lines 1513-1532). \<open>data_fields\<close> is what the caller gave:
  \<open>None\<close>, a string, a list or a set of field names. Line 1525 replaces a falsy value
  by the tuple \<open>ANN_DATA_FIELDS[:6]\<close> and line 1523 puts a string in a list; line 1527
  then calls \<open>issubset\<close>, which only a set has: on a tuple or a list it raises
  AttributeError.
\<close>

definition ANN_DATA_FIELDS :: "string list" where
  "ANN_DATA_FIELDS =
    [''sample'', ''symbol'', ''subtype'', ''chan'', ''num'', ''aux_note'', ''label_store'',
     ''description'']"

datatype data_fields_arg =
  Fields_None | Fields_str string | Fields_list "string list" | Fields_set "string list"

definition check_read_inputs ::
  "int \<Rightarrow> int option \<Rightarrow> data_fields_arg \<Rightarrow> py_error + string list" where
  "check_read_inputs sampfrom sampto data_fields =
    (if (case sampto of None \<Rightarrow> False | Some b \<Rightarrow> b \<noteq> 0 \<and> b \<le> sampfrom)
     then Inl ValueError
     else if sampfrom < 0 then Inl ValueError
     else
       (case data_fields of
          Fields_set given \<Rightarrow>
            if given = [] then Inl AttributeError
            else if list_all (\<lambda>f. f \<in> set ANN_DATA_FIELDS) given then Inr given
            else Inl ValueError
        | _ \<Rightarrow> Inl AttributeError))"

text \<open>
  \<open>lists_to_arrays\<close> (lines 1793-1800) returns one array for each entry of \<open>dtypes\<close>,
  made from the argument at the same position (\<open>args[i]\<close> raises IndexError past the
  end). An array is modelled by the list of its elements.
\<close>

datatype py_array = Int_array "int list" | Object_array "string list"

definition lists_to_arrays :: "string list \<Rightarrow> py_array list \<Rightarrow> py_error + py_array list" where
  "lists_to_arrays dtypes args =
    (if length dtypes \<le> length args then Inr (take (length dtypes) args)
     else Inl IndexError)"

text \<open>
  The assignment of a sequence to a tuple of five names, as in line 1422: Python
  raises ValueError unless the sequence has five elements.
\<close>

definition unpack5 :: "'a list \<Rightarrow> py_error + 'a \<times> 'a \<times> 'a \<times> 'a \<times> 'a" where
  "unpack5 xs =
    (case xs of
       [a, b, c, d, e] \<Rightarrow> Inr (a, b, c, d, e)
     | _ \<Rightarrow> Inl ValueError)"

text \<open>
  \<open>rdann\<close> (lines 1400-1440) on the byte pairs of the file, from the check of its
  inputs to the arguments it builds the \<open>Annotation\<close> object from, together with the
  list of the header lookups it made. The file is a local one (\<open>pb_dir\<close> is \<open>None\<close>)
  that \<open>load_byte_pairs\<close> has read. \<open>None\<close> is a call that does not return. Line
  1422 gives the six lists to \<open>lists_to_arrays\<close>, with six entries of \<open>dtypes\<close>, and
  assigns the result to five names. The frequency that reaches the header fallback is
  the one \<open>extract_ann_info\<close> returned. What follows the constructor (lines
  1443-1452) is not in the model.
\<close>

definition rdann ::
  "'f py_lib \<Rightarrow> (string \<Rightarrow> py_error + 'f option) \<Rightarrow> string \<Rightarrow> byte_pair list \<Rightarrow> int
    \<Rightarrow> int option \<Rightarrow> data_fields_arg
    \<Rightarrow> ((py_error + ('f option \<times> (int \<times> string \<times> string) list option \<times> py_array list))
        \<times> string list) option" where
  "rdann lib rdheader record_name file_bytes sampfrom sampto data_fields =
    (case check_read_inputs sampfrom sampto data_fields of
       Inl e \<Rightarrow> Some (Inl e, [])
     | Inr data_fields' \<Rightarrow>
         (case rdann_data lib file_bytes sampto of
            None \<Rightarrow> None
          | Some (Inl e) \<Rightarrow> Some (Inl e, [])
          | Some (Inr (fs, custom_labels, acc)) \<Rightarrow>
              (case lists_to_arrays
                      [''int'', ''int'', ''int'', ''int'', ''int'', ''object'']
                      [Int_array (sample acc), Int_array (label_store acc),
                       Int_array (subtype acc), Int_array (chan acc), Int_array (num acc),
                       Object_array (aux_note acc)] of
                 Inl e \<Rightarrow> Some (Inl e, [])
               | Inr arrays \<Rightarrow>
                   (case unpack5 arrays of
                      Inl e \<Rightarrow> Some (Inl e, [])
                    | Inr (sample', label_store', subtype', chan', num') \<Rightarrow>
                        (case rdann_header_fs rdheader record_name fs [] of
                           Inl e \<Rightarrow> Some (Inl e, [])
                         | Inr (fs', calls) \<Rightarrow>
                             Some (Inr (fs', custom_labels,
                                     [sample', label_store', subtype', chan', num',
                                      Object_array (aux_note acc)]),
                                   calls))))))"

subsection \<open>The label map\<close>

text \<open>
  \<open>get_undefined_label_stores\<close> (lines 1809-1814): the values of \<open>range(50)\<close> that are
  no \<open>label_store\<close> of \<open>ANN_LABELS\<close>. The source makes a list of a set, whose order
  Python does not fix; the model lists them in ascending order.
\<close>

definition get_undefined_label_stores :: "int list" where
  "get_undefined_label_stores =
    filter (\<lambda>i. i \<notin> set (map fst ANN_LABELS)) (map int [0..<50])"

text \<open>
  The custom labels that a caller gives: pairs \<open>(symbol, description)\<close> or triplets
  \<open>(label_store, symbol, description)\<close>. \<open>check_field('custom_labels')\<close> (lines
  333-390) on them; a list is truthy when it is not empty.
\<close>

datatype custom_labels = Pairs "(string \<times> string) list" | Triplets "(int \<times> string \<times> string) list"

definition whitespace :: "char \<Rightarrow> bool" where
  "whitespace c = (c \<in> set [CHR '' '', CHR 0x09, CHR 0x0A, CHR 0x0D, CHR 0x0C, CHR 0x0B])"

definition check_symbol :: "string \<Rightarrow> py_error + unit" where
  "check_symbol s =
    (if length s \<notin> {1, 2, 3} then Inl ValueError
     else if list_ex whitespace s then Inl ValueError
     else Inr ())"

definition check_all :: "('a \<Rightarrow> py_error + unit) \<Rightarrow> 'a list \<Rightarrow> py_error + unit" where
  "check_all chk xs = fold (\<lambda>x r. case r of Inl e \<Rightarrow> Inl e | Inr u \<Rightarrow> chk x) xs (Inr ())"

definition check_field_custom_labels :: "custom_labels \<Rightarrow> py_error + unit" where
  "check_field_custom_labels item =
    (case item of
       Pairs ps \<Rightarrow>
         if ps = [] then Inl ValueError
         else if \<not> distinct (map fst ps) then Inl ValueError
         else check_all check_symbol (map fst ps)
     | Triplets ts \<Rightarrow>
         if ts = [] then Inl ValueError
         else if \<not> distinct (map fst ts) then Inl ValueError
         else if list_min (map fst ts) < 1 \<or> list_max (map fst ts) > 49 then Inl ValueError
         else if \<not> distinct (map (fst \<circ> snd) ts) then Inl ValueError
         else check_all check_symbol (map (fst \<circ> snd) ts))"

text \<open>
  \<open>_create_label_map\<close> (lines 620-667). With custom labels, after
  \<open>_custom_labels_to_df\<close> has checked them, line 644 reads the local name
  \<open>custom_labels\<close>, which the function binds only at line 656: Python raises
  UnboundLocalError there, for every list of custom labels. Without custom labels the
  map is \<open>ANN_LABELS\<close>.
\<close>

definition custom_labels_truthy :: "custom_labels option \<Rightarrow> bool" where
  "custom_labels_truthy cl =
    (case cl of None \<Rightarrow> False | Some (Pairs ps) \<Rightarrow> ps \<noteq> [] | Some (Triplets ts) \<Rightarrow> ts \<noteq> [])"

definition create_label_map ::
  "custom_labels option \<Rightarrow> py_error + (int \<times> string \<times> string) list" where
  "create_label_map self_custom_labels =
    (if custom_labels_truthy self_custom_labels then
       (case check_field_custom_labels (the self_custom_labels) of
          Inl e \<Rightarrow> Inl e
        | Inr u \<Rightarrow> Inl UnboundLocalError)
     else Inr ANN_LABELS)"

section \<open>Properties\<close>

subsection \<open>Bits of Python integers\<close>

lemma and_255: "(k::int) AND 255 = k mod 256"
proof -
  have "k AND mask 8 = k mod 2 ^ 8"
    by (simp only: take_bit_eq_mod flip: take_bit_eq_mask)
  then show ?thesis by (simp add: mask_eq_exp_minus_1)
qed

lemma and_3: "(k::int) AND 3 = k mod 4"
proof -
  have "k AND mask 2 = k mod 2 ^ 2"
    by (simp only: take_bit_eq_mod flip: take_bit_eq_mask)
  then show ?thesis by (simp add: mask_eq_exp_minus_1)
qed


subsection \<open>The encoder's words\<close>

lemma typecode_of_range:
  assumes "typecode_of symb = Inr tc"
  shows "1 \<le> tc \<and> tc \<le> 41"
proof -
  have all: "\<forall>(st, sy, d) \<in> set ANN_LABELS. 1 \<le> st \<and> st \<le> 41"
    by (simp add: ANN_LABELS_def)
  from assms obtain sy d rest where
    "filter (\<lambda>(st, sy, d). sy = symb) ANN_LABELS = (tc, sy, d) # rest"
    by (auto simp: typecode_of_def split: list.splits)
  then have "(tc, sy, d) \<in> set (filter (\<lambda>(st, sy, d). sy = symb) ANN_LABELS)"
    by simp
  then have "(tc, sy, d) \<in> set ANN_LABELS"
    by auto
  with all show ?thesis
    by blast
qed





subsection \<open>Field compaction\<close>


lemma length_compact_carry_loop [simp]: "length (compact_carry_loop p xs) = length xs"
  by (induction xs arbitrary: p) auto

lemma replicate_None_nth: "i < length ys \<Longrightarrow> ys = replicate (length ys) None \<Longrightarrow> ys ! i = None"
  by (metis nth_replicate)
















subsection \<open>The check of the sample field\<close>

text \<open>
  Claim C6, at the sample array \<open>[2147483648]\<close>. Its only difference is \<open>2^31\<close>,
  which is more than \<open>2^31 - 1\<close>; \<open>check_field\<close> compares with \<open>2147483648\<close> and
  accepts it. The writer then produces the skip word with the bytes of \<open>2^31\<close>, and
  \<open>extract_ann_data\<close> reads the sample back as \<open>- 2^31\<close>.
\<close>

theorem check_field_sample_two_pow_31:
  "check_field_sample [2147483648] = Inr ()
   \<and> wr_ann_file_bytes [] []
        \<lparr>self_sample = [2147483648], self_symbol = Some [''N''], self_subtype = None,
         self_chan = None, self_num = None, self_aux_note = None\<rparr>
      = Inr [0, 236, 0, 128, 0, 0, 0, 4, 0, 0]
   \<and> load_byte_pairs [0, 236, 0, 128, 0, 0, 0, 4, 0, 0]
      = Inr [(0, 236), (0, 128), (0, 0), (0, 4), (0, 0)]
   \<and> extract_ann_data [(0, 236), (0, 128), (0, 0), (0, 4), (0, 0)] None
      = Inr \<lparr>sample = [- 2147483648], label_store = [1], subtype = [0], chan = [0],
             num = [0], aux_note = ['''']\<rparr>"
proof -
  have "check_field_sample [2147483648] = Inr ()"
    by (simp add: check_field_sample_def list_min_def list_max_def sampdiffs_def)
  moreover have "wr_ann_file_bytes [] []
        \<lparr>self_sample = [2147483648], self_symbol = Some [''N''], self_subtype = None,
         self_chan = None, self_num = None, self_aux_note = None\<rparr>
      = Inr [0, 236, 0, 128, 0, 0, 0, 4, 0, 0]"
    by (simp add: wr_ann_file_bytes_def calc_core_bytes_def annotation_bytes_def
        compact_fields_def compact_aux_note_field_def compact_subtype_field_def
        sampdiffs_def compact_carry_field_def
        extra_field_bytes_def isblank_def append_py_def get_item_def typecode_of_def
        ANN_LABELS_def)
  moreover have "load_byte_pairs [0, 236, 0, 128, 0, 0, 0, 4, 0, 0]
      = Inr [(0, 236), (0, 128), (0, 0), (0, 4), (0, 0)]"
    by simp
  moreover have "extract_ann_data [(0, 236), (0, 128), (0, 0), (0, 4), (0, 0)] None
      = Inr \<lparr>sample = [- 2147483648], label_store = [1], subtype = [0], chan = [0],
             num = [0], aux_note = ['''']\<rparr>"
    by code_simp
  ultimately show ?thesis
    by simp
qed

subsection \<open>The label map with custom labels\<close>

text \<open>
  Claim C2, at one custom label without a store code. \<open>_create_label_map\<close> allocates
  nothing: it raises UnboundLocalError. The undefined codes it would start from are
  taken from \<open>range(50)\<close> and hold 0, which is outside the label range 1 to 49.
\<close>

theorem create_label_map_custom_pairs:
  "create_label_map (Some (Pairs [(''Z'', ''zed'')])) = Inl UnboundLocalError
   \<and> 0 \<in> set get_undefined_label_stores"
  by (simp add: create_label_map_def custom_labels_truthy_def check_field_custom_labels_def
      check_all_def check_symbol_def whitespace_def get_undefined_label_stores_def ANN_LABELS_def)

subsection \<open>The extra fields of one annotation\<close>

text \<open>
  The tags of the extra-field words that the inner loop consumes from the pair at
  \<open>bpi\<close> on, in the order of the file: the words that follow an annotation's core
  word. \<open>extra_field_end\<close> is the index after one such word (and its text, for tag 63).
\<close>

definition extra_field_end :: "int \<Rightarrow> byte_pair list \<Rightarrow> nat \<Rightarrow> nat" where
  "extra_field_end tag file_bytes bpi =
    (if tag = 63 then bpi + 1 + (unat (fst (file_bytes ! bpi)) + 1) div 2 else bpi + 1)"

function extra_tags :: "byte_pair list \<Rightarrow> nat \<Rightarrow> int list" where
  "extra_tags file_bytes bpi =
    (if length file_bytes \<le> bpi then []
     else if uint (drop_bit 2 (snd (file_bytes ! bpi))) > 59 then
       uint (drop_bit 2 (snd (file_bytes ! bpi)))
         # extra_tags file_bytes
             (extra_field_end (uint (drop_bit 2 (snd (file_bytes ! bpi)))) file_bytes bpi)
     else [])"
  by pat_completeness auto
termination
  by (relation "measure (\<lambda>(file_bytes, bpi). length file_bytes - bpi)")
    (auto simp: extra_field_end_def)

declare extra_tags.simps [simp del]

definition annotation_extra_tags :: "byte_pair list \<Rightarrow> nat \<Rightarrow> int list" where
  "annotation_extra_tags file_bytes bpi =
    (case proc_core_fields file_bytes bpi of
       Inl e \<Rightarrow> []
     | Inr (sample_diff, tag, bpi1) \<Rightarrow> extra_tags file_bytes bpi1)"

definition same_length :: "ann_lists \<Rightarrow> nat \<Rightarrow> bool" where
  "same_length acc n \<longleftrightarrow>
    length (sample acc) = n \<and> length (label_store acc) = n \<and> length (subtype acc) = n
    \<and> length (chan acc) = n \<and> length (num acc) = n \<and> length (aux_note acc) = n"

lemma proc_extra_field_end:
  "proc_extra_field tag file_bytes bpi acc update = Inr (acc1, update1, bpi1)
    \<Longrightarrow> 59 < tag \<Longrightarrow> tag < 64 \<Longrightarrow> bpi1 = extra_field_end tag file_bytes bpi"
  by (auto simp: proc_extra_field_def extra_field_end_def Let_def split: if_splits)

lemma proc_extra_field_core:
  "proc_extra_field tag file_bytes bpi acc update = Inr (acc1, update1, bpi1)
    \<Longrightarrow> sample acc1 = sample acc \<and> label_store acc1 = label_store acc"
  by (auto simp: proc_extra_field_def Let_def split: if_splits)

lemma proc_extra_field_subtype:
  "proc_extra_field tag file_bytes bpi acc update = Inr (acc1, update1, bpi1)
    \<Longrightarrow> (tag = 61 \<longrightarrow> (\<exists>v. subtype acc1 = subtype acc @ [v])
            \<and> \<not> upd_subtype update1)
      \<and> (tag \<noteq> 61 \<longrightarrow> subtype acc1 = subtype acc
            \<and> upd_subtype update1 = upd_subtype update)"
  by (auto simp: proc_extra_field_def Let_def split: if_splits)

lemma proc_extra_field_chan:
  "proc_extra_field tag file_bytes bpi acc update = Inr (acc1, update1, bpi1)
    \<Longrightarrow> (tag = 62 \<longrightarrow> (\<exists>v. chan acc1 = chan acc @ [v]) \<and> \<not> upd_chan update1)
      \<and> (tag \<noteq> 62 \<longrightarrow> chan acc1 = chan acc \<and> upd_chan update1 = upd_chan update)"
  by (auto simp: proc_extra_field_def Let_def split: if_splits)

lemma proc_extra_field_num:
  "proc_extra_field tag file_bytes bpi acc update = Inr (acc1, update1, bpi1)
    \<Longrightarrow> (tag = 60 \<longrightarrow> (\<exists>v. num acc1 = num acc @ [v]) \<and> \<not> upd_num update1)
      \<and> (tag \<noteq> 60 \<longrightarrow> num acc1 = num acc \<and> upd_num update1 = upd_num update)"
  by (auto simp: proc_extra_field_def Let_def split: if_splits)

lemma proc_extra_field_aux_note:
  "proc_extra_field tag file_bytes bpi acc update = Inr (acc1, update1, bpi1)
    \<Longrightarrow> (tag = 63 \<longrightarrow> (\<exists>v. aux_note acc1 = aux_note acc @ [v])
            \<and> \<not> upd_aux_note update1)
      \<and> (tag \<noteq> 63 \<longrightarrow> aux_note acc1 = aux_note acc
            \<and> upd_aux_note update1 = upd_aux_note update)"
  by (auto simp: proc_extra_field_def Let_def split: if_splits)

text \<open>
  One field through the inner loop: \<open>sel\<close> is its list, \<open>flg\<close> its update flag and
  \<open>k\<close> its tag.
\<close>

lemma extra_fields_loop_field:
  assumes step: "\<And>tag file_bytes bpi acc update acc1 update1 bpi1.
      proc_extra_field tag file_bytes bpi acc update = Inr (acc1, update1, bpi1) \<Longrightarrow>
        (tag = k \<longrightarrow> (\<exists>v. sel acc1 = sel acc @ [v]) \<and> \<not> flg update1)
        \<and> (tag \<noteq> k \<longrightarrow> sel acc1 = sel acc \<and> flg update1 = flg update)"
    and run: "extra_fields_loop file_bytes bpi acc update = Inr (acc', update', bpi')"
  shows "(\<exists>ys. sel acc' = sel acc @ ys
            \<and> length ys = count_list (extra_tags file_bytes bpi) k)
    \<and> (flg update' \<longleftrightarrow> flg update \<and> k \<notin> set (extra_tags file_bytes bpi))"
  using run
proof (induction file_bytes bpi acc update rule: extra_fields_loop.induct)
  case (1 file_bytes bpi acc update)
  let ?tag = "uint (drop_bit 2 (snd (file_bytes ! bpi)))"
  from "1.prems" have inr: "\<not> length file_bytes \<le> bpi"
    by (simp add: extra_fields_loop.simps [of file_bytes bpi] split: if_splits)
  show ?case
  proof (cases "59 < ?tag")
    case False
    with "1.prems" inr have "acc' = acc" "update' = update"
      by (simp_all add: extra_fields_loop.simps [of file_bytes bpi])
    moreover from False inr have "extra_tags file_bytes bpi = []"
      by (simp add: extra_tags.simps [of file_bytes bpi])
    ultimately show ?thesis
      by simp
  next
    case True
    from "1.prems" True inr obtain acc1 update1 bpi1 where
      one: "proc_extra_field ?tag file_bytes bpi acc update = Inr (acc1, update1, bpi1)"
      and rest: "extra_fields_loop file_bytes bpi1 acc1 update1 = Inr (acc', update', bpi')"
      by (simp add: extra_fields_loop.simps [of file_bytes bpi] split: sum.splits prod.splits)
    from proc_extra_field_end [OF one True tag_bound]
    have bpi1: "bpi1 = extra_field_end ?tag file_bytes bpi" .
    from True inr bpi1 have tags: "extra_tags file_bytes bpi = ?tag # extra_tags file_bytes bpi1"
      by (simp add: extra_tags.simps [of file_bytes bpi])
    note ih = "1.IH" [OF inr True one refl refl rest]
    note st = step [OF one]
    from ih obtain ys where ys: "sel acc' = sel acc1 @ ys"
      "length ys = count_list (extra_tags file_bytes bpi1) k"
      and flg: "flg update' \<longleftrightarrow> flg update1 \<and> k \<notin> set (extra_tags file_bytes bpi1)"
      by blast
    show ?thesis
    proof (cases "?tag = k")
      case eq: True
      with st obtain v where "sel acc1 = sel acc @ [v]" and "\<not> flg update1"
        by blast
      with ys flg tags eq show ?thesis
        by simp
    next
      case neq: False
      with st have "sel acc1 = sel acc" and "flg update1 = flg update"
        by simp_all
      with ys flg tags neq show ?thesis
        by simp
    qed
  qed
qed

lemma extra_fields_loop_core:
  "extra_fields_loop file_bytes bpi acc update = Inr (acc', update', bpi')
    \<Longrightarrow> sample acc' = sample acc \<and> label_store acc' = label_store acc"
proof (induction file_bytes bpi acc update rule: extra_fields_loop.induct)
  case (1 file_bytes bpi acc update)
  let ?tag = "uint (drop_bit 2 (snd (file_bytes ! bpi)))"
  from "1.prems" have inr: "\<not> length file_bytes \<le> bpi"
    by (simp add: extra_fields_loop.simps [of file_bytes bpi] split: if_splits)
  show ?case
  proof (cases "59 < ?tag")
    case False
    with "1.prems" inr show ?thesis
      by (simp add: extra_fields_loop.simps [of file_bytes bpi])
  next
    case True
    from "1.prems" True inr obtain acc1 update1 bpi1 where
      one: "proc_extra_field ?tag file_bytes bpi acc update = Inr (acc1, update1, bpi1)"
      and rest: "extra_fields_loop file_bytes bpi1 acc1 update1 = Inr (acc', update', bpi')"
      by (simp add: extra_fields_loop.simps [of file_bytes bpi] split: sum.splits prod.splits)
    from "1.IH" [OF inr True one refl refl rest] proc_extra_field_core [OF one]
    show ?thesis
      by simp
  qed
qed

lemma extra_fields_loop_subtype:
  assumes "extra_fields_loop file_bytes bpi acc update = Inr (acc', update', bpi')"
  shows "(\<exists>ys. subtype acc' = subtype acc @ ys
            \<and> length ys = count_list (extra_tags file_bytes bpi) 61)
    \<and> (upd_subtype update' \<longleftrightarrow> upd_subtype update \<and> 61 \<notin> set (extra_tags file_bytes bpi))"
  by (rule extra_fields_loop_field [where sel = subtype and flg = upd_subtype and k = 61])
    (rule proc_extra_field_subtype, assumption, rule assms)

lemma extra_fields_loop_chan:
  assumes "extra_fields_loop file_bytes bpi acc update = Inr (acc', update', bpi')"
  shows "(\<exists>ys. chan acc' = chan acc @ ys
            \<and> length ys = count_list (extra_tags file_bytes bpi) 62)
    \<and> (upd_chan update' \<longleftrightarrow> upd_chan update \<and> 62 \<notin> set (extra_tags file_bytes bpi))"
  by (rule extra_fields_loop_field [where sel = chan and flg = upd_chan and k = 62])
    (rule proc_extra_field_chan, assumption, rule assms)

lemma extra_fields_loop_num:
  assumes "extra_fields_loop file_bytes bpi acc update = Inr (acc', update', bpi')"
  shows "(\<exists>ys. num acc' = num acc @ ys
            \<and> length ys = count_list (extra_tags file_bytes bpi) 60)
    \<and> (upd_num update' \<longleftrightarrow> upd_num update \<and> 60 \<notin> set (extra_tags file_bytes bpi))"
  by (rule extra_fields_loop_field [where sel = num and flg = upd_num and k = 60])
    (rule proc_extra_field_num, assumption, rule assms)

lemma extra_fields_loop_aux_note:
  assumes "extra_fields_loop file_bytes bpi acc update = Inr (acc', update', bpi')"
  shows "(\<exists>ys. aux_note acc' = aux_note acc @ ys
            \<and> length ys = count_list (extra_tags file_bytes bpi) 63)
    \<and> (upd_aux_note update' \<longleftrightarrow> upd_aux_note update \<and> 63 \<notin> set (extra_tags file_bytes bpi))"
  by (rule extra_fields_loop_field [where sel = aux_note and flg = upd_aux_note and k = 63])
    (rule proc_extra_field_aux_note, assumption, rule assms)

lemma update_extra_fields_simps:
  "sample (update_extra_fields acc update) = sample acc"
  "label_store (update_extra_fields acc update) = label_store acc"
  "subtype (update_extra_fields acc update) =
    (if upd_subtype update then subtype acc @ [0] else subtype acc)"
  "chan (update_extra_fields acc update) =
    (if upd_chan update then chan acc @ [if chan acc = [] then 0 else last (chan acc)]
     else chan acc)"
  "num (update_extra_fields acc update) =
    (if upd_num update then num acc @ [if num acc = [] then 0 else last (num acc)]
     else num acc)"
  "aux_note (update_extra_fields acc update) =
    (if upd_aux_note update then aux_note acc @ [[]] else aux_note acc)"
  by (simp_all add: update_extra_fields_def Let_def)

text \<open>One pass of the main loop, taken apart.\<close>

lemma ann_iteration_cases:
  assumes "ann_iteration file_bytes bpi sample_total acc = Inr (acc', sample_total', bpi')"
  obtains sample_diff tag bpi1 acc1 update1 where
    "proc_core_fields file_bytes bpi = Inr (sample_diff, tag, bpi1)"
    "extra_fields_loop file_bytes bpi1
       (acc\<lparr>sample := sample acc @ [sample_total + sample_diff],
            label_store := label_store acc @ [tag]\<rparr>) all_update = Inr (acc1, update1, bpi')"
    "acc' = update_extra_fields acc1 update1"
    "sample_total' = sample_total + sample_diff"
    "annotation_extra_tags file_bytes bpi = extra_tags file_bytes bpi1"
proof -
  from assms obtain sample_diff tag bpi1 where
    core: "proc_core_fields file_bytes bpi = Inr (sample_diff, tag, bpi1)"
    by (cases "proc_core_fields file_bytes bpi") (auto simp: ann_iteration_def)
  with assms obtain acc1 update1 where
    "extra_fields_loop file_bytes bpi1
       (acc\<lparr>sample := sample acc @ [sample_total + sample_diff],
            label_store := label_store acc @ [tag]\<rparr>) all_update = Inr (acc1, update1, bpi')"
    "acc' = update_extra_fields acc1 update1"
    "sample_total' = sample_total + sample_diff"
    by (auto simp: ann_iteration_def split: sum.splits prod.splits)
  moreover from core have "annotation_extra_tags file_bytes bpi = extra_tags file_bytes bpi1"
    by (simp add: annotation_extra_tags_def)
  ultimately show thesis
    using core that by blast
qed

lemma ann_iteration_sample:
  assumes "ann_iteration file_bytes bpi sample_total acc = Inr (acc', sample_total', bpi')"
  shows "sample acc' = sample acc @ [sample_total']"
    and "\<exists>tag. label_store acc' = label_store acc @ [tag]"
proof -
  from assms obtain sample_diff tag bpi1 acc1 update1 where
    loop: "extra_fields_loop file_bytes bpi1
       (acc\<lparr>sample := sample acc @ [sample_total + sample_diff],
            label_store := label_store acc @ [tag]\<rparr>) all_update = Inr (acc1, update1, bpi')"
    and acc': "acc' = update_extra_fields acc1 update1"
    and total: "sample_total' = sample_total + sample_diff"
    by (rule ann_iteration_cases)
  from extra_fields_loop_core [OF loop] acc' total
  show "sample acc' = sample acc @ [sample_total']"
    and "\<exists>tag. label_store acc' = label_store acc @ [tag]"
    by (simp_all add: update_extra_fields_simps)
qed

lemma count_list_le_1: "distinct xs \<Longrightarrow> count_list xs k = (if k \<in> set xs then 1 else 0)"
  by (induction xs) auto

lemma length_1_conv: "length ys = Suc 0 \<longleftrightarrow> (\<exists>v. ys = [v])"
  by (cases ys) auto

lemma ann_iteration_fields:
  assumes it: "ann_iteration file_bytes bpi sample_total acc = Inr (acc', sample_total', bpi')"
    and d: "distinct (annotation_extra_tags file_bytes bpi)"
  shows "\<exists>v. subtype acc' = subtype acc @ [v]"
    and "\<exists>v. chan acc' = chan acc @ [v]"
    and "\<exists>v. num acc' = num acc @ [v]"
    and "\<exists>v. aux_note acc' = aux_note acc @ [v]"
proof -
  from it obtain sample_diff tag bpi1 acc1 update1 where
    loop: "extra_fields_loop file_bytes bpi1
       (acc\<lparr>sample := sample acc @ [sample_total + sample_diff],
            label_store := label_store acc @ [tag]\<rparr>) all_update = Inr (acc1, update1, bpi')"
    and acc': "acc' = update_extra_fields acc1 update1"
    and tags: "annotation_extra_tags file_bytes bpi = extra_tags file_bytes bpi1"
    by (rule ann_iteration_cases)
  from d tags have dt: "distinct (extra_tags file_bytes bpi1)"
    by simp
  from extra_fields_loop_subtype [OF loop] acc' show "\<exists>v. subtype acc' = subtype acc @ [v]"
    by (auto simp: update_extra_fields_simps count_list_le_1 [OF dt] all_update_def
        length_1_conv split: if_splits)
  from extra_fields_loop_chan [OF loop] acc' show "\<exists>v. chan acc' = chan acc @ [v]"
    by (auto simp: update_extra_fields_simps count_list_le_1 [OF dt] all_update_def
        length_1_conv split: if_splits)
  from extra_fields_loop_num [OF loop] acc' show "\<exists>v. num acc' = num acc @ [v]"
    by (auto simp: update_extra_fields_simps count_list_le_1 [OF dt] all_update_def
        length_1_conv split: if_splits)
  from extra_fields_loop_aux_note [OF loop] acc' show "\<exists>v. aux_note acc' = aux_note acc @ [v]"
    by (auto simp: update_extra_fields_simps count_list_le_1 [OF dt] all_update_def
        length_1_conv split: if_splits)
qed


subsection \<open>The decoder's lists\<close>

text \<open>
  Claim C10. In one pass of the main loop of \<open>extract_ann_data\<close>, when the extra-field
  words that follow the core word have pairwise different tags (at most one word for
  each of the fields 60 to 63) and the six lists all have length \<open>n\<close> before the pass,
  they all have length \<open>n + 1\<close> after it: the pass appends one element to each list.
\<close>

theorem ann_iteration_same_length:
  assumes "ann_iteration file_bytes bpi sample_total acc = Inr (acc', sample_total', bpi')"
    and "distinct (annotation_extra_tags file_bytes bpi)"
    and "same_length acc n"
  shows "same_length acc' (Suc n)"
proof -
  from ann_iteration_sample [OF assms(1)] ann_iteration_fields [OF assms(1, 2)]
  obtain t s c m a where
    "sample acc' = sample acc @ [sample_total']" "label_store acc' = label_store acc @ [t]"
    "subtype acc' = subtype acc @ [s]" "chan acc' = chan acc @ [c]"
    "num acc' = num acc @ [m]" "aux_note acc' = aux_note acc @ [a]"
    by blast
  with assms(3) show ?thesis
    by (simp add: same_length_def)
qed

theorem ann_iteration_same_length_witness:
  "ann_iteration [(10, 4), (3, 248), (5, 244), (0, 0)] 0 0 empty_lists
     = Inr (\<lparr>sample = [10], label_store = [1], subtype = [5], chan = [3], num = [0],
              aux_note = [[]]\<rparr>, 10, 3)
   \<and> distinct (annotation_extra_tags [(10, 4), (3, 248), (5, 244), (0, 0)] 0)
   \<and> same_length empty_lists 0
   \<and> same_length \<lparr>sample = [10], label_store = [1], subtype = [5], chan = [3], num = [0],
        aux_note = [[]]\<rparr> (Suc 0)"
proof -
  have it: "ann_iteration [(10, 4), (3, 248), (5, 244), (0, 0)] 0 0 empty_lists
     = Inr (\<lparr>sample = [10], label_store = [1], subtype = [5], chan = [3], num = [0],
              aux_note = [[]]\<rparr>, 10, 3)"
    by code_simp
  have d: "distinct (annotation_extra_tags [(10, 4), (3, 248), (5, 244), (0, 0)] 0)"
    by code_simp
  have s: "same_length empty_lists 0"
    by (simp add: same_length_def empty_lists_def)
  from ann_iteration_same_length [OF it d s] it d s show ?thesis
    by simp
qed

text \<open>The invariant over the whole of \<open>extract_ann_data\<close>.\<close>

lemma ann_iteration_nonempty:
  assumes it: "ann_iteration file_bytes bpi sample_total acc = Inr (acc', sample_total', bpi')"
  shows "subtype acc' \<noteq> []" and "chan acc' \<noteq> []" and "num acc' \<noteq> []"
    and "aux_note acc' \<noteq> []"
proof -
  from it obtain sample_diff tag bpi1 acc1 update1 where
    loop: "extra_fields_loop file_bytes bpi1
       (acc\<lparr>sample := sample acc @ [sample_total + sample_diff],
            label_store := label_store acc @ [tag]\<rparr>) all_update = Inr (acc1, update1, bpi')"
    and acc': "acc' = update_extra_fields acc1 update1"
    by (rule ann_iteration_cases)
  from extra_fields_loop_subtype [OF loop] acc' show "subtype acc' \<noteq> []"
    by (auto simp: update_extra_fields_simps all_update_def count_list_0_iff)
  from extra_fields_loop_chan [OF loop] acc' show "chan acc' \<noteq> []"
    by (auto simp: update_extra_fields_simps all_update_def count_list_0_iff)
  from extra_fields_loop_num [OF loop] acc' show "num acc' \<noteq> []"
    by (auto simp: update_extra_fields_simps all_update_def count_list_0_iff)
  from extra_fields_loop_aux_note [OF loop] acc' show "aux_note acc' \<noteq> []"
    by (auto simp: update_extra_fields_simps all_update_def count_list_0_iff)
qed

lemma rm_last_same_length:
  "same_length acc (Suc n) \<Longrightarrow> \<exists>r. rm_last acc = Inr r \<and> same_length r n"
  by (auto simp: rm_last_def same_length_def)

lemma extract_loop_same_length:
  assumes "\<And>p. distinct (annotation_extra_tags file_bytes p)"
    and "extract_loop file_bytes sampto bpi sample_total acc = Inr r"
    and "same_length acc n"
  shows "\<exists>m. same_length r m"
  using assms
proof (induction file_bytes sampto bpi sample_total acc arbitrary: n rule: extract_loop.induct)
  case (1 file_bytes sampto bpi sample_total acc)
  note d = "1.prems"(1) and run = "1.prems"(2) and sl = "1.prems"(3)
  show ?case
  proof (cases "bpi + 1 < length file_bytes")
    case False
    with run sl show ?thesis
      by (auto simp: extract_loop.simps [of file_bytes sampto bpi])
  next
    case True
    with run obtain acc' sample_total' bpi' where
      it: "ann_iteration file_bytes bpi sample_total acc = Inr (acc', sample_total', bpi')"
      by (auto simp: extract_loop.simps [of file_bytes sampto bpi] split: sum.splits)
    from ann_iteration_same_length [OF it d sl]
    have len: "same_length acc' (Suc n)" .
    show ?thesis
    proof (cases "case sampto of None \<Rightarrow> False | Some b \<Rightarrow> b \<noteq> 0 \<and> b < sample_total'")
      case stop: True
      with run True it have "rm_last acc' = Inr r"
        by (simp add: extract_loop.simps [of file_bytes sampto bpi])
      with rm_last_same_length [OF len] show ?thesis
        by auto
    next
      case go: False
      with run True it
      have "extract_loop file_bytes sampto bpi' sample_total' acc' = Inr r"
        by (simp add: extract_loop.simps [of file_bytes sampto bpi])
      from "1.IH" [OF True it refl refl go d this len] show ?thesis .
    qed
  qed
qed



lemma extract_loop_bound:
  assumes "b \<noteq> 0"
    and "extract_loop file_bytes (Some b) bpi sample_total acc = Inr r"
    and "\<forall>s \<in> set (sample acc). s \<le> b"
  shows "\<forall>s \<in> set (sample r). s \<le> b"
  using assms(2, 3)
proof (induction file_bytes "Some b" bpi sample_total acc rule: extract_loop.induct)
  case (1 file_bytes bpi sample_total acc)
  show ?case
  proof (cases "bpi + 1 < length file_bytes")
    case False
    with "1.prems" show ?thesis
      by (auto simp: extract_loop.simps [of file_bytes "Some b" bpi])
  next
    case True
    with "1.prems"(1) obtain acc' sample_total' bpi' where
      it: "ann_iteration file_bytes bpi sample_total acc = Inr (acc', sample_total', bpi')"
      by (auto simp: extract_loop.simps [of file_bytes "Some b" bpi] split: sum.splits)
    from ann_iteration_sample(1) [OF it]
    have smp: "sample acc' = sample acc @ [sample_total']" .
    show ?thesis
    proof (cases "b < sample_total'")
      case stop: True
      with "1.prems"(1) True it assms(1) have "rm_last acc' = Inr r"
        by (simp add: extract_loop.simps [of file_bytes "Some b" bpi])
      with smp have "sample r = sample acc"
        by (auto simp: rm_last_def split: if_splits)
      with "1.prems"(2) show ?thesis
        by simp
    next
      case go: False
      with "1.prems"(1) True it
      have run: "extract_loop file_bytes (Some b) bpi' sample_total' acc' = Inr r"
        by (simp add: extract_loop.simps [of file_bytes "Some b" bpi])
      from go have cond: "\<not> (case Some b of None \<Rightarrow> False | Some b \<Rightarrow> b \<noteq> 0 \<and> b < sample_total')"
        by simp
      from smp go "1.prems"(2) have "\<forall>s \<in> set (sample acc'). s \<le> b"
        by auto
      from "1.hyps" [OF True it refl refl cond run this] show ?thesis .
    qed
  qed
qed

lemma ann_iteration_counts:
  assumes it: "ann_iteration file_bytes bpi sample_total acc = Inr (acc', sample_total', bpi')"
  shows "\<exists>ys. subtype acc' = subtype acc @ ys
            \<and> length ys = max 1 (count_list (annotation_extra_tags file_bytes bpi) 61)"
    and "\<exists>ys. chan acc' = chan acc @ ys
            \<and> length ys = max 1 (count_list (annotation_extra_tags file_bytes bpi) 62)"
    and "\<exists>ys. num acc' = num acc @ ys
            \<and> length ys = max 1 (count_list (annotation_extra_tags file_bytes bpi) 60)"
    and "\<exists>ys. aux_note acc' = aux_note acc @ ys
            \<and> length ys = max 1 (count_list (annotation_extra_tags file_bytes bpi) 63)"
proof -
  from it obtain sample_diff tag bpi1 acc1 update1 where
    loop: "extra_fields_loop file_bytes bpi1
       (acc\<lparr>sample := sample acc @ [sample_total + sample_diff],
            label_store := label_store acc @ [tag]\<rparr>) all_update = Inr (acc1, update1, bpi')"
    and acc': "acc' = update_extra_fields acc1 update1"
    and tags: "annotation_extra_tags file_bytes bpi = extra_tags file_bytes bpi1"
    by (rule ann_iteration_cases)
  have one: "max (Suc 0) (count_list xs k) = (if k \<in> set xs then count_list xs k else Suc 0)"
    for xs :: "int list" and k
    using count_list_0_iff [of xs k] by (auto simp: max_def)
  from extra_fields_loop_subtype [OF loop] acc' tags
  show "\<exists>ys. subtype acc' = subtype acc @ ys
            \<and> length ys = max 1 (count_list (annotation_extra_tags file_bytes bpi) 61)"
    by (auto simp: update_extra_fields_simps all_update_def one count_list_0_iff)
  from extra_fields_loop_chan [OF loop] acc' tags
  show "\<exists>ys. chan acc' = chan acc @ ys
            \<and> length ys = max 1 (count_list (annotation_extra_tags file_bytes bpi) 62)"
    by (auto simp: update_extra_fields_simps all_update_def one count_list_0_iff)
  from extra_fields_loop_num [OF loop] acc' tags
  show "\<exists>ys. num acc' = num acc @ ys
            \<and> length ys = max 1 (count_list (annotation_extra_tags file_bytes bpi) 60)"
    by (auto simp: update_extra_fields_simps all_update_def one count_list_0_iff)
  from extra_fields_loop_aux_note [OF loop] acc' tags
  show "\<exists>ys. aux_note acc' = aux_note acc @ ys
            \<and> length ys = max 1 (count_list (annotation_extra_tags file_bytes bpi) 63)"
    by (auto simp: update_extra_fields_simps all_update_def one count_list_0_iff)
qed

lemma butlast_extension:
  assumes "xs' = xs @ ys" and "length ys = max 1 c"
  shows "xs' \<noteq> [] \<and> (\<exists>zs. butlast xs' = xs @ zs \<and> length zs = c - 1)"
proof -
  from assms(2) have "ys \<noteq> []"
    by auto
  with assms show ?thesis
    by (auto simp: butlast_append)
qed

lemma extract_loop_extends:
  assumes "extract_loop file_bytes sampto bpi sample_total acc = Inr r"
  shows "(\<exists>ys. sample r = sample acc @ ys) \<and> (\<exists>ys. label_store r = label_store acc @ ys)"
  using assms
proof (induction file_bytes sampto bpi sample_total acc rule: extract_loop.induct)
  case (1 file_bytes sampto bpi sample_total acc)
  show ?case
  proof (cases "bpi + 1 < length file_bytes")
    case False
    with "1.prems" show ?thesis
      by (auto simp: extract_loop.simps [of file_bytes sampto bpi])
  next
    case True
    with "1.prems" obtain acc' sample_total' bpi' where
      it: "ann_iteration file_bytes bpi sample_total acc = Inr (acc', sample_total', bpi')"
      by (auto simp: extract_loop.simps [of file_bytes sampto bpi] split: sum.splits)
    from ann_iteration_sample [OF it] obtain t where
      smp: "sample acc' = sample acc @ [sample_total']"
      and lab: "label_store acc' = label_store acc @ [t]"
      by blast
    show ?thesis
    proof (cases "case sampto of None \<Rightarrow> False | Some b \<Rightarrow> b \<noteq> 0 \<and> b < sample_total'")
      case stop: True
      with "1.prems" True it have "rm_last acc' = Inr r"
        by (simp add: extract_loop.simps [of file_bytes sampto bpi])
      with smp lab have "sample r = sample acc" "label_store r = label_store acc"
        by (auto simp: rm_last_def split: if_splits)
      then show ?thesis
        by simp
    next
      case go: False
      with "1.prems" True it
      have run: "extract_loop file_bytes sampto bpi' sample_total' acc' = Inr r"
        by (simp add: extract_loop.simps [of file_bytes sampto bpi])
      from "1.IH" [OF True it refl refl go run] smp lab show ?thesis
        by auto
    qed
  qed
qed

text \<open>
  Claim C8, as the code has it. For every bound \<open>sampto\<close> other than 0 and every
  pass of the main loop, with \<open>sample_total'\<close> the running total after the pass:
  \<^item> when \<open>sample_total'\<close> is at most the bound the annotation stays and the loop goes
    on from the lists that hold it, and what the loop returns extends the \<open>sample\<close>
    and \<open>label_store\<close> lists it was entered with;
  \<^item> when \<open>sample_total'\<close> is above the bound the loop stops and returns what
    \<open>rm_last\<close> gives, every list without its last element. \<open>sample\<close> and
    \<open>label_store\<close> are then as before the annotation. The other four lists are as
    before it followed by one element less than the annotation has extra-field words
    of their tag: a tag that comes twice leaves a value of the annotation behind.
    With at most one word per tag the six lists are as before the annotation.
  \<^item> every sample of the result of \<open>extract_ann_data\<close> is at most the bound.
  A bound of 0 is falsy in \<open>if sampto and ...\<close> and is read as no bound.
\<close>

theorem extract_ann_data_sampto:
  assumes "b \<noteq> 0"
  shows "(\<forall>r. extract_ann_data file_bytes (Some b) = Inr r \<longrightarrow> (\<forall>s \<in> set (sample r). s \<le> b))
    \<and> (bpi + 1 < length file_bytes
        \<and> ann_iteration file_bytes bpi sample_total acc = Inr (acc', sample_total', bpi')
        \<and> b < sample_total' \<longrightarrow>
          extract_loop file_bytes (Some b) bpi sample_total acc = rm_last acc'
          \<and> (\<exists>ys_subtype ys_chan ys_num ys_aux_note.
                rm_last acc' =
                  Inr \<lparr>sample = sample acc, label_store = label_store acc,
                       subtype = subtype acc @ ys_subtype, chan = chan acc @ ys_chan,
                       num = num acc @ ys_num, aux_note = aux_note acc @ ys_aux_note\<rparr>
                \<and> length ys_subtype = count_list (annotation_extra_tags file_bytes bpi) 61 - 1
                \<and> length ys_chan = count_list (annotation_extra_tags file_bytes bpi) 62 - 1
                \<and> length ys_num = count_list (annotation_extra_tags file_bytes bpi) 60 - 1
                \<and> length ys_aux_note
                    = count_list (annotation_extra_tags file_bytes bpi) 63 - 1)
          \<and> (distinct (annotation_extra_tags file_bytes bpi) \<longrightarrow> rm_last acc' = Inr acc))
    \<and> (bpi + 1 < length file_bytes
        \<and> ann_iteration file_bytes bpi sample_total acc = Inr (acc', sample_total', bpi')
        \<and> sample_total' \<le> b \<longrightarrow>
          extract_loop file_bytes (Some b) bpi sample_total acc
            = extract_loop file_bytes (Some b) bpi' sample_total' acc')
    \<and> (\<forall>r. extract_loop file_bytes (Some b) bpi sample_total acc = Inr r \<longrightarrow>
          (\<exists>ys. sample r = sample acc @ ys) \<and> (\<exists>ys. label_store r = label_store acc @ ys))"
proof (intro conjI allI impI)
  fix r
  assume "extract_ann_data file_bytes (Some b) = Inr r"
  then have "extract_loop file_bytes (Some b) 0 0 empty_lists = Inr r"
    by (simp add: extract_ann_data_def)
  from extract_loop_bound [OF assms this] show "\<forall>s \<in> set (sample r). s \<le> b"
    by (simp add: empty_lists_def)
next
  assume a: "bpi + 1 < length file_bytes
        \<and> ann_iteration file_bytes bpi sample_total acc = Inr (acc', sample_total', bpi')
        \<and> b < sample_total'"
  with assms show "extract_loop file_bytes (Some b) bpi sample_total acc = rm_last acc'"
    by (simp add: extract_loop.simps [of file_bytes "Some b" bpi])
next
  assume a: "bpi + 1 < length file_bytes
        \<and> ann_iteration file_bytes bpi sample_total acc = Inr (acc', sample_total', bpi')
        \<and> b < sample_total'"
  then have it: "ann_iteration file_bytes bpi sample_total acc = Inr (acc', sample_total', bpi')"
    by simp
  let ?tags = "annotation_extra_tags file_bytes bpi"
  from ann_iteration_sample [OF it] obtain t where
    smp: "sample acc' = sample acc @ [sample_total']"
    and lab: "label_store acc' = label_store acc @ [t]"
    by blast
  from ann_iteration_counts [OF it] obtain zs_s zs_c zs_n zs_a where
    "subtype acc' = subtype acc @ zs_s" "length zs_s = max 1 (count_list ?tags 61)"
    "chan acc' = chan acc @ zs_c" "length zs_c = max 1 (count_list ?tags 62)"
    "num acc' = num acc @ zs_n" "length zs_n = max 1 (count_list ?tags 60)"
    "aux_note acc' = aux_note acc @ zs_a" "length zs_a = max 1 (count_list ?tags 63)"
    by blast
  then obtain ys_s ys_c ys_n ys_a where
    s: "subtype acc' \<noteq> []" "butlast (subtype acc') = subtype acc @ ys_s"
      "length ys_s = count_list ?tags 61 - 1"
    and c: "chan acc' \<noteq> []" "butlast (chan acc') = chan acc @ ys_c"
      "length ys_c = count_list ?tags 62 - 1"
    and n: "num acc' \<noteq> []" "butlast (num acc') = num acc @ ys_n"
      "length ys_n = count_list ?tags 60 - 1"
    and a: "aux_note acc' \<noteq> []" "butlast (aux_note acc') = aux_note acc @ ys_a"
      "length ys_a = count_list ?tags 63 - 1"
    using butlast_extension [of "subtype acc'" "subtype acc" zs_s "count_list ?tags 61"]
      butlast_extension [of "chan acc'" "chan acc" zs_c "count_list ?tags 62"]
      butlast_extension [of "num acc'" "num acc" zs_n "count_list ?tags 60"]
      butlast_extension [of "aux_note acc'" "aux_note acc" zs_a "count_list ?tags 63"]
    by blast
  from smp lab s(1, 2) c(1, 2) n(1, 2) a(1, 2)
  have "rm_last acc' =
      Inr \<lparr>sample = sample acc, label_store = label_store acc,
           subtype = subtype acc @ ys_s, chan = chan acc @ ys_c,
           num = num acc @ ys_n, aux_note = aux_note acc @ ys_a\<rparr>"
    by (simp add: rm_last_def)
  with s(3) c(3) n(3) a(3)
  show "\<exists>ys_subtype ys_chan ys_num ys_aux_note.
      rm_last acc' =
        Inr \<lparr>sample = sample acc, label_store = label_store acc,
             subtype = subtype acc @ ys_subtype, chan = chan acc @ ys_chan,
             num = num acc @ ys_num, aux_note = aux_note acc @ ys_aux_note\<rparr>
      \<and> length ys_subtype = count_list (annotation_extra_tags file_bytes bpi) 61 - 1
      \<and> length ys_chan = count_list (annotation_extra_tags file_bytes bpi) 62 - 1
      \<and> length ys_num = count_list (annotation_extra_tags file_bytes bpi) 60 - 1
      \<and> length ys_aux_note = count_list (annotation_extra_tags file_bytes bpi) 63 - 1"
    by blast
next
  assume a: "bpi + 1 < length file_bytes
        \<and> ann_iteration file_bytes bpi sample_total acc = Inr (acc', sample_total', bpi')
        \<and> b < sample_total'"
    and d: "distinct (annotation_extra_tags file_bytes bpi)"
  then have it: "ann_iteration file_bytes bpi sample_total acc = Inr (acc', sample_total', bpi')"
    by simp
  from ann_iteration_sample [OF it] ann_iteration_fields [OF it d]
  obtain t s c m a where
    "sample acc' = sample acc @ [sample_total']" "label_store acc' = label_store acc @ [t]"
    "subtype acc' = subtype acc @ [s]" "chan acc' = chan acc @ [c]"
    "num acc' = num acc @ [m]" "aux_note acc' = aux_note acc @ [a]"
    by blast
  then show "rm_last acc' = Inr acc"
    by (simp add: rm_last_def)
next
  assume a: "bpi + 1 < length file_bytes
        \<and> ann_iteration file_bytes bpi sample_total acc = Inr (acc', sample_total', bpi')
        \<and> sample_total' \<le> b"
  then show "extract_loop file_bytes (Some b) bpi sample_total acc
      = extract_loop file_bytes (Some b) bpi' sample_total' acc'"
    by (simp add: extract_loop.simps [of file_bytes "Some b" bpi])
next
  fix r
  assume "extract_loop file_bytes (Some b) bpi sample_total acc = Inr r"
  from extract_loop_extends [OF this]
  show "\<exists>ys. sample r = sample acc @ ys" and "\<exists>ys. label_store r = label_store acc @ ys"
    by simp_all
qed

theorem extract_ann_data_sampto_witness:
  "(10 :: int) \<noteq> 0
   \<and> ann_iteration [(5, 4), (10, 4), (0, 0)] 1 5
        \<lparr>sample = [5], label_store = [1], subtype = [0], chan = [0], num = [0],
          aux_note = [[]]\<rparr>
      = Inr (\<lparr>sample = [5, 15], label_store = [1, 1], subtype = [0, 0], chan = [0, 0],
               num = [0, 0], aux_note = [[], []]\<rparr>, 15, 2)
   \<and> extract_loop [(5, 4), (10, 4), (0, 0)] (Some 10) 1 5
        \<lparr>sample = [5], label_store = [1], subtype = [0], chan = [0], num = [0],
          aux_note = [[]]\<rparr>
      = Inr \<lparr>sample = [5], label_store = [1], subtype = [0], chan = [0], num = [0],
             aux_note = [[]]\<rparr>
   \<and> ann_iteration [(5, 4), (10, 4), (0, 0)] 0 0 empty_lists
      = Inr (\<lparr>sample = [5], label_store = [1], subtype = [0], chan = [0], num = [0],
               aux_note = [[]]\<rparr>, 5, 1)
   \<and> extract_loop [(5, 4), (10, 4), (0, 0)] (Some 10) 0 0 empty_lists
      = extract_loop [(5, 4), (10, 4), (0, 0)] (Some 10) 1 5
          \<lparr>sample = [5], label_store = [1], subtype = [0], chan = [0], num = [0],
            aux_note = [[]]\<rparr>"
proof -
  have it: "ann_iteration [(5, 4), (10, 4), (0, 0)] 1 5
        \<lparr>sample = [5], label_store = [1], subtype = [0], chan = [0], num = [0],
          aux_note = [[]]\<rparr>
      = Inr (\<lparr>sample = [5, 15], label_store = [1, 1], subtype = [0, 0], chan = [0, 0],
               num = [0, 0], aux_note = [[], []]\<rparr>, 15, 2)"
    by code_simp
  have it0: "ann_iteration [(5, 4), (10, 4), (0, 0)] 0 0 empty_lists
      = Inr (\<lparr>sample = [5], label_store = [1], subtype = [0], chan = [0], num = [0],
               aux_note = [[]]\<rparr>, 5, 1)"
    by code_simp
  have d: "distinct (annotation_extra_tags [(5, 4), (10, 4), (0, 0)] 1)"
    by code_simp
  have b: "(10 :: int) \<noteq> 0"
    by simp
  from extract_ann_data_sampto [OF b,
      where file_bytes = "[(5, 4), (10, 4), (0, 0)]" and bpi = 1 and sample_total = 5
        and acc = "\<lparr>sample = [5], label_store = [1], subtype = [0], chan = [0], num = [0],
          aux_note = [[]]\<rparr>"
        and acc' = "\<lparr>sample = [5, 15], label_store = [1, 1], subtype = [0, 0],
          chan = [0, 0], num = [0, 0], aux_note = [[], []]\<rparr>"
        and sample_total' = 15 and bpi' = 2]
    it d
  have stop: "extract_loop [(5, 4), (10, 4), (0, 0)] (Some 10) 1 5
        \<lparr>sample = [5], label_store = [1], subtype = [0], chan = [0], num = [0],
          aux_note = [[]]\<rparr>
      = Inr \<lparr>sample = [5], label_store = [1], subtype = [0], chan = [0], num = [0],
             aux_note = [[]]\<rparr>"
    by simp
  from extract_ann_data_sampto [OF b,
      where file_bytes = "[(5, 4), (10, 4), (0, 0)]" and bpi = 0 and sample_total = 0
        and acc = empty_lists
        and acc' = "\<lparr>sample = [5], label_store = [1], subtype = [0], chan = [0], num = [0],
          aux_note = [[]]\<rparr>"
        and sample_total' = 5 and bpi' = 1]
    it0
  have go: "extract_loop [(5, 4), (10, 4), (0, 0)] (Some 10) 0 0 empty_lists
      = extract_loop [(5, 4), (10, 4), (0, 0)] (Some 10) 1 5
          \<lparr>sample = [5], label_store = [1], subtype = [0], chan = [0], num = [0],
            aux_note = [[]]\<rparr>"
    by simp
  from b it stop it0 go show ?thesis
    by simp
qed

text \<open>
  The claim as stated, for every bound and every stream, fails twice. At the bound 0
  the running total 5 is above the bound, and the annotation is kept. At the bound 3,
  on an annotation with two \<open>chan\<close> words, the annotation is dropped from the lists but
  for the value 1 of its first \<open>chan\<close> word, which stays in a \<open>chan\<close> list longer than
  the others.
\<close>

theorem extract_ann_data_sampto_zero:
  "extract_ann_data [(5, 4), (0, 0)] (Some 0)
    = Inr \<lparr>sample = [5], label_store = [1], subtype = [0], chan = [0], num = [0],
           aux_note = [[]]\<rparr>
   \<and> extract_ann_data [(5, 4), (1, 248), (2, 248), (0, 0)] (Some 3)
    = Inr \<lparr>sample = [], label_store = [], subtype = [], chan = [1], num = [],
           aux_note = []\<rparr>"
proof -
  have "extract_ann_data [(5, 4), (0, 0)] (Some 0)
    = Inr \<lparr>sample = [5], label_store = [1], subtype = [0], chan = [0], num = [0],
           aux_note = [[]]\<rparr>"
    by code_simp
  moreover have "extract_ann_data [(5, 4), (1, 248), (2, 248), (0, 0)] (Some 3)
    = Inr \<lparr>sample = [], label_store = [], subtype = [], chan = [1], num = [],
           aux_note = []\<rparr>"
    by code_simp
  ultimately show ?thesis
    by simp
qed

subsection \<open>The notes that describe the file\<close>

text \<open>
  A file with two annotations at sample 0: a normal beat (store 1), then a comment
  (store 22) whose note is \<open>## time resolution: 360\<close>.
\<close>

definition beat_then_resolution :: "byte_pair list" where
  "beat_then_resolution =
    [(0, 4), (0, 88), (23, 252),
     (35, 35), (32, 116), (105, 109), (101, 32), (114, 101), (115, 111), (108, 117),
     (116, 105), (111, 110), (58, 32), (51, 54), (48, 0), (0, 0)]"

lemma beat_then_resolution_data:
  "extract_ann_data beat_then_resolution None
    = Inr \<lparr>sample = [0, 0], label_store = [1, 22], subtype = [0, 0], chan = [0, 0],
           num = [0, 0], aux_note = [[], ''## time resolution: 360'']\<rparr>"
  by code_simp

lemma info_loop_skips_note:
  "info_loop lib (Suc 0) [[], ''## time resolution: 360''] 0 None [] = Some (Inr (None, []))"
  by (subst info_loop.simps, simp add: startswith_def, subst info_loop.simps, simp)

text \<open>
  Claim C7, at this file. The comment at sample 0 matches \<open>## time resolution:
  <number>\<close>, and the reader recovers no sampling frequency from it, whatever the
  regular expressions find: \<open>extract_ann_info\<close> reads the notes at the indices
  \<open>0, 1, ...\<close> below the number of candidate annotations, here the note of the beat,
  and not the notes at the candidates' indices. The comment is removed from the result.
\<close>

theorem rdann_data_beat_then_resolution:
  "rdann_data lib beat_then_resolution None
    = Some (Inr (None, None,
        \<lparr>sample = [0], label_store = [1], subtype = [0], chan = [0], num = [0],
          aux_note = [[]]\<rparr>))"
proof -
  have inds: "get_info_inds \<lparr>sample = [0, 0], label_store = [1, 22], subtype = [0, 0],
      chan = [0, 0], num = [0, 0], aux_note = [[], ''## time resolution: 360'']\<rparr>
      = ([Suc 0], [Suc 0])"
    by code_simp
  have rm: "rm_empty_indices [Suc 0] \<lparr>sample = [0, 0], label_store = [1, 22], subtype = [0, 0],
      chan = [0, 0], num = [0, 0], aux_note = [[], ''## time resolution: 360'']\<rparr>
      = Inr \<lparr>sample = [0], label_store = [1], subtype = [0], chan = [0], num = [0],
          aux_note = [[]]\<rparr>"
    by code_simp
  show ?thesis
    by (simp add: rdann_data_def beat_then_resolution_data inds rm extract_ann_info_def
        info_loop_skips_note)
qed

text \<open>
  A second way in which \<open>extract_ann_info\<close> misses: on a leading note that starts with
  \<open>## \<close>, holds no frequency and does not open the definitions, the index stays where
  it is and the loop never ends.
\<close>

lemma info_loop_spins:
  assumes "rx_fs_findall lib ''## x'' = []"
  shows "info_loop lib 1 [''## x''] 0 None [] = None"
proof -
  have spin: "\<not> (l = lib \<and> n = 1 \<and> ns = [''## x''] \<and> i = 0 \<and> fs = None \<and> cl = [])"
    if run: "info_loop l n ns i fs cl = Some y" for l n ns i fs cl y
  proof (rule info_loop.raw_induct
      [where P = "\<lambda>l n ns i fs cl y.
          \<not> (l = lib \<and> n = 1 \<and> ns = [''## x''] \<and> i = 0 \<and> fs = None \<and> cl = [])",
        OF _ run], goal_cases)
    case (1 rec l n ns i fs cl y)
    note ih = "1"(1) and body = "1"(2)
    show ?case
    proof
      assume eq: "l = lib \<and> n = 1 \<and> ns = [''## x''] \<and> i = 0 \<and> fs = None \<and> cl = []"
      with body assms have "rec l n ns i fs cl = Some y"
        by (simp add: startswith_def)
      from ih [OF this] eq show False
        by simp
    qed
  qed
  show ?thesis
  proof (cases "info_loop lib 1 [''## x''] 0 None []")
    case None
    then show ?thesis .
  next
    case (Some y)
    from spin [OF this] show ?thesis
      by simp
  qed
qed

subsection \<open>The whole of \<open>rdann\<close>\<close>


lemma unpack5_six: "unpack5 [a, b, c, d, e, f] = Inl ValueError"
  by (simp add: unpack5_def)

lemma rdann_raises:
  "rdann lib rdheader record_name file_bytes sampfrom sampto data_fields =
    (case check_read_inputs sampfrom sampto data_fields of
       Inl e \<Rightarrow> Some (Inl e, [])
     | Inr data_fields' \<Rightarrow>
         (case rdann_data lib file_bytes sampto of
            None \<Rightarrow> None
          | Some (Inl e) \<Rightarrow> Some (Inl e, [])
          | Some (Inr r) \<Rightarrow> Some (Inl ValueError, [])))"
  by (simp add: rdann_def lists_to_arrays_def unpack5_six
      split: sum.splits option.splits prod.splits)



subsection \<open>Writing, then reading\<close>

text \<open>
  Two annotation sets that \<open>check_field\<close> accepts: a normal beat at sample 10, and a
  comment (symbol \<open>"\<close>, store 22) at sample 0.
\<close>

definition beat_at_10 :: annotation where
  "beat_at_10 =
    \<lparr>self_sample = [10], self_symbol = Some [''N''], self_subtype = None,
     self_chan = None, self_num = None, self_aux_note = None\<rparr>"

definition comment_at_0 :: annotation where
  "comment_at_0 =
    \<lparr>self_sample = [0], self_symbol = Some [[CHR 0x22]], self_subtype = None,
     self_chan = None, self_num = None, self_aux_note = None\<rparr>"

lemma wr_ann_file_bytes_beat_at_10: "wr_ann_file_bytes [] [] beat_at_10 = Inr [10, 4, 0, 0]"
  by (simp add: wr_ann_file_bytes_def calc_core_bytes_def annotation_bytes_def
      compact_fields_def compact_aux_note_field_def compact_subtype_field_def sampdiffs_def
      compact_carry_field_def extra_field_bytes_def isblank_def append_py_def get_item_def
      typecode_of_def ANN_LABELS_def beat_at_10_def)

lemma wr_ann_file_bytes_comment_at_0: "wr_ann_file_bytes [] [] comment_at_0 = Inr [0, 88, 0, 0]"
  by (simp add: wr_ann_file_bytes_def calc_core_bytes_def annotation_bytes_def
      compact_fields_def compact_aux_note_field_def compact_subtype_field_def sampdiffs_def
      compact_carry_field_def extra_field_bytes_def isblank_def append_py_def get_item_def
      typecode_of_def ANN_LABELS_def comment_at_0_def)

lemma rdann_data_beat_at_10:
  "rdann_data lib [(10, 4), (0, 0)] None
    = Some (Inr (None, None,
        \<lparr>sample = [10], label_store = [1], subtype = [0], chan = [0], num = [0],
          aux_note = [[]]\<rparr>))"
proof -
  have data: "extract_ann_data [(10, 4), (0, 0)] None
      = Inr \<lparr>sample = [10], label_store = [1], subtype = [0], chan = [0], num = [0],
             aux_note = [[]]\<rparr>"
    by code_simp
  have inds: "get_info_inds \<lparr>sample = [10], label_store = [1], subtype = [0], chan = [0],
      num = [0], aux_note = [[]]\<rparr> = ([], [])"
    by code_simp
  show ?thesis
    by (simp add: rdann_data_def data inds extract_ann_info_def rm_empty_indices_def)
qed

lemma rdann_data_comment_at_0:
  "rdann_data lib [(0, 88), (0, 0)] None
    = Some (Inr (None, None,
        \<lparr>sample = [], label_store = [], subtype = [], chan = [], num = [], aux_note = []\<rparr>))"
proof -
  have data: "extract_ann_data [(0, 88), (0, 0)] None
      = Inr \<lparr>sample = [0], label_store = [22], subtype = [0], chan = [0], num = [0],
             aux_note = [[]]\<rparr>"
    by code_simp
  have inds: "get_info_inds \<lparr>sample = [0], label_store = [22], subtype = [0], chan = [0],
      num = [0], aux_note = [[]]\<rparr> = ([0], [0])"
    by code_simp
  have rm: "rm_empty_indices [0] \<lparr>sample = [0], label_store = [22], subtype = [0],
      chan = [0], num = [0], aux_note = [[]]\<rparr>
      = Inr \<lparr>sample = [], label_store = [], subtype = [], chan = [], num = [],
             aux_note = []\<rparr>"
    by code_simp
  have info: "info_loop lib (Suc 0) [[]] 0 None [] = Some (Inr (None, []))"
    by (subst info_loop.simps, simp add: startswith_def, subst info_loop.simps, simp)
  show ?thesis
    by (simp add: rdann_data_def data inds rm extract_ann_info_def info)
qed

text \<open>
  Claim C1, against the code. The beat at sample 10 passes the checks of \<open>sample\<close>
  and \<open>symbol\<close> and is written as the bytes \<open>10, 4, 0, 0\<close>. Reading them back,
  \<open>rdann\<close> builds the lists of the annotation set that was written and then raises:
  AttributeError in \<open>check_read_inputs\<close> when \<open>data_fields\<close> is left to its default,
  ValueError at line 1422 when it is a set of field names. It returns no annotation
  set, here or on any other file. Before line 1422 the lists are not always those that
  were written either: the comment at sample 0 passes the same checks, is written as
  \<open>0, 88, 0, 0\<close>, and is removed from the lists that are read.
\<close>

theorem wrann_rdann_beat_at_10:
  "check_field_sample (self_sample beat_at_10) = Inr ()
   \<and> check_all check_symbol [''N''] = Inr ()
   \<and> wr_ann_file_bytes [] [] beat_at_10 = Inr [10, 4, 0, 0]
   \<and> load_byte_pairs [10, 4, 0, 0] = Inr [(10, 4), (0, 0)]
   \<and> rdann_data lib [(10, 4), (0, 0)] None
      = Some (Inr (None, None,
          \<lparr>sample = [10], label_store = [1], subtype = [0], chan = [0], num = [0],
            aux_note = [[]]\<rparr>))
   \<and> rdann lib rdheader record_name [(10, 4), (0, 0)] 0 None Fields_None
      = Some (Inl AttributeError, [])
   \<and> rdann lib rdheader record_name [(10, 4), (0, 0)] 0 None
        (Fields_set [''sample'', ''symbol''])
      = Some (Inl ValueError, [])
   \<and> (case rdann lib rdheader record_name file_bytes sampfrom sampto data_fields of
        None \<Rightarrow> True
      | Some (r, calls) \<Rightarrow> isl r)
   \<and> check_field_sample (self_sample comment_at_0) = Inr ()
   \<and> check_all check_symbol [[CHR 0x22]] = Inr ()
   \<and> wr_ann_file_bytes [] [] comment_at_0 = Inr [0, 88, 0, 0]
   \<and> load_byte_pairs [0, 88, 0, 0] = Inr [(0, 88), (0, 0)]
   \<and> rdann_data lib [(0, 88), (0, 0)] None
      = Some (Inr (None, None,
          \<lparr>sample = [], label_store = [], subtype = [], chan = [], num = [],
            aux_note = []\<rparr>))"
proof -
  have "check_field_sample (self_sample beat_at_10) = Inr ()"
    and "check_field_sample (self_sample comment_at_0) = Inr ()"
    by (simp_all add: check_field_sample_def list_min_def list_max_def sampdiffs_def
        beat_at_10_def comment_at_0_def)
  moreover have "check_all check_symbol [''N''] = Inr ()"
    and "check_all check_symbol [[CHR 0x22]] = Inr ()"
    by (simp_all add: check_all_def check_symbol_def whitespace_def)
  moreover have "load_byte_pairs [10, 4, 0, 0] = Inr [(10, 4), (0, 0)]"
    and "load_byte_pairs [0, 88, 0, 0] = Inr [(0, 88), (0, 0)]"
    by simp_all
  moreover have "rdann lib rdheader record_name [(10, 4), (0, 0)] 0 None Fields_None
      = Some (Inl AttributeError, [])"
    by (simp add: rdann_raises check_read_inputs_def)
  moreover have "check_read_inputs 0 None (Fields_set [''sample'', ''symbol''])
      = Inr [''sample'', ''symbol'']"
    by (simp add: check_read_inputs_def ANN_DATA_FIELDS_def)
  then have "rdann lib rdheader record_name [(10, 4), (0, 0)] 0 None
        (Fields_set [''sample'', ''symbol''])
      = Some (Inl ValueError, [])"
    by (simp add: rdann_raises rdann_data_beat_at_10)
  moreover have "case rdann lib rdheader record_name file_bytes sampfrom sampto data_fields of
        None \<Rightarrow> True
      | Some (r, calls) \<Rightarrow> isl r"
    by (simp add: rdann_raises split: sum.splits option.splits prod.splits)
  ultimately show ?thesis
    using wr_ann_file_bytes_beat_at_10 wr_ann_file_bytes_comment_at_0
      rdann_data_beat_at_10 [of lib] rdann_data_comment_at_0 [of lib]
    by simp
qed

end
